theory Spec2Isabelle
  imports Complex_Main "HOL-Library.Word" "HOL-Library.Multiset"
begin

unbundle bit_operations_syntax

section \<open>JavaScript numbers\<close>

text \<open>
  A JavaScript \<open>number\<close> is an IEEE-754 double: a finite value (a real number), one of
  the two infinities, or \<open>NaN\<close>. Comparisons are exact on doubles and are modelled as
  they are: \<open>NaN\<close> compares false with everything, and \<open>x === 0\<close> holds for the finite
  value zero only (the sign of zero is left out). The arithmetic of doubles rounds; the
  functions of the source that compute with it take the four operations they use as the
  parameter \<open>ar\<close>, so that what is proved holds for the runtime's rounding operations.
  \<open>js_add\<close>, \<open>js_mul\<close>, \<open>js_div\<close> and \<open>js_sqrt\<close> are the operations without
  rounding; they treat the special values as IEEE-754 does (\<open>0 / 0\<close> is \<open>NaN\<close>) and
  serve in the examples.
\<close>

datatype jsnum = Num real | PInf | NInf | NaN

fun js_neg :: "jsnum \<Rightarrow> jsnum" where
  "js_neg (Num a) = Num (- a)"
| "js_neg PInf = NInf"
| "js_neg NInf = PInf"
| "js_neg NaN = NaN"

fun js_add :: "jsnum \<Rightarrow> jsnum \<Rightarrow> jsnum" where
  "js_add NaN _ = NaN"
| "js_add _ NaN = NaN"
| "js_add (Num a) (Num b) = Num (a + b)"
| "js_add PInf NInf = NaN"
| "js_add NInf PInf = NaN"
| "js_add PInf _ = PInf"
| "js_add _ PInf = PInf"
| "js_add NInf _ = NInf"
| "js_add _ NInf = NInf"

definition js_sub :: "jsnum \<Rightarrow> jsnum \<Rightarrow> jsnum" where
  "js_sub a b = js_add a (js_neg b)"

definition js_inf_times :: "bool \<Rightarrow> real \<Rightarrow> jsnum" where
  "js_inf_times pos b = (if b = 0 then NaN else if (0 < b) = pos then PInf else NInf)"

fun js_mul :: "jsnum \<Rightarrow> jsnum \<Rightarrow> jsnum" where
  "js_mul NaN _ = NaN"
| "js_mul _ NaN = NaN"
| "js_mul (Num a) (Num b) = Num (a * b)"
| "js_mul PInf (Num b) = js_inf_times True b"
| "js_mul NInf (Num b) = js_inf_times False b"
| "js_mul (Num a) PInf = js_inf_times True a"
| "js_mul (Num a) NInf = js_inf_times False a"
| "js_mul PInf PInf = PInf"
| "js_mul NInf NInf = PInf"
| "js_mul PInf NInf = NInf"
| "js_mul NInf PInf = NInf"

fun js_div :: "jsnum \<Rightarrow> jsnum \<Rightarrow> jsnum" where
  "js_div NaN _ = NaN"
| "js_div _ NaN = NaN"
| "js_div (Num a) (Num b) =
     (if b = 0 then (if a = 0 then NaN else if 0 < a then PInf else NInf) else Num (a / b))"
| "js_div (Num a) PInf = Num 0"
| "js_div (Num a) NInf = Num 0"
| "js_div PInf (Num b) = (if 0 \<le> b then PInf else NInf)"
| "js_div NInf (Num b) = (if 0 \<le> b then NInf else PInf)"
| "js_div PInf PInf = NaN"
| "js_div PInf NInf = NaN"
| "js_div NInf PInf = NaN"
| "js_div NInf NInf = NaN"

fun js_sqrt :: "jsnum \<Rightarrow> jsnum" where
  "js_sqrt (Num a) = (if a < 0 then NaN else Num (sqrt a))"
| "js_sqrt PInf = PInf"
| "js_sqrt NInf = NaN"
| "js_sqrt NaN = NaN"

text \<open>\<open>a >= b\<close> and \<open>a > b\<close> of JavaScript: false as soon as one side is \<open>NaN\<close>.\<close>

fun js_ge :: "jsnum \<Rightarrow> jsnum \<Rightarrow> bool" where
  "js_ge NaN _ = False"
| "js_ge _ NaN = False"
| "js_ge (Num a) (Num b) = (b \<le> a)"
| "js_ge PInf _ = True"
| "js_ge _ NInf = True"
| "js_ge _ PInf = False"
| "js_ge NInf _ = False"

fun js_gt :: "jsnum \<Rightarrow> jsnum \<Rightarrow> bool" where
  "js_gt NaN _ = False"
| "js_gt _ NaN = False"
| "js_gt (Num a) (Num b) = (b < a)"
| "js_gt PInf PInf = False"
| "js_gt PInf _ = True"
| "js_gt NInf _ = False"
| "js_gt _ NInf = True"
| "js_gt _ PInf = False"

record arith =
  ar_add :: "jsnum \<Rightarrow> jsnum \<Rightarrow> jsnum"
  ar_mul :: "jsnum \<Rightarrow> jsnum \<Rightarrow> jsnum"
  ar_div :: "jsnum \<Rightarrow> jsnum \<Rightarrow> jsnum"
  ar_sqrt :: "jsnum \<Rightarrow> jsnum"

text \<open>
  The operations without rounding. Where every intermediate result is a double itself, as
  with the small integers and the quotient \<open>1 / 2\<close> of the examples, the correctly
  rounding operations of the runtime return the same numbers.
\<close>

definition exact_arith :: arith where
  "exact_arith = \<lparr>ar_add = js_add, ar_mul = js_mul, ar_div = js_div, ar_sqrt = js_sqrt\<rparr>"

section \<open>Errors\<close>

text \<open>
  Every \<open>throw\<close> of the source is a plain \<open>Error\<close> with a message; the model names
  them by the place that raises them. \<open>StorageError\<close> is an error of the SQL engine
  passed through, \<open>RangeError\<close> is the out-of-range read of a \<open>Buffer\<close>, and
  \<open>SyntaxError\<close> is what \<open>JSON.parse\<close> raises.
\<close>

datatype error =
    DimensionMismatch nat nat
  | UnknownTable string
  | StorageError string
  | RangeError
  | SyntaxError
  | TypeError
  | NoEmbeddingFound
  | NotInitialized
  | PoolShuttingDown
  | CheckoutTimeout
  | MaximumConnectionsReached

section \<open>Vector codec and metrics (\<open>VectorOperations\<close>)\<close>

type_synonym byte = "8 word"
type_synonym Buffer = "byte list"
type_synonym Embedding = "jsnum list"

text \<open>
  \<open>Buffer.writeFloatLE\<close> rounds the double to an IEEE-754 binary32 and stores its four
  bytes, least significant first; \<open>Buffer.readFloatLE\<close> assembles the four bytes and
  widens the binary32 to a double. The two conversions between a number and the 32 bits
  of its binary32 are the runtime's; they are the parameters \<open>enc\<close> and \<open>dec\<close>. The
  byte layout is modelled bit by bit.
\<close>

definition writeFloatLE :: "(jsnum \<Rightarrow> 32 word) \<Rightarrow> jsnum \<Rightarrow> Buffer" where
  "writeFloatLE enc value =
     (let w = enc value
      in [ucast w, ucast (drop_bit 8 w), ucast (drop_bit 16 w), ucast (drop_bit 24 w)])"

definition le_word :: "byte \<Rightarrow> byte \<Rightarrow> byte \<Rightarrow> byte \<Rightarrow> 32 word" where
  "le_word b0 b1 b2 b3 =
     ucast b0 OR push_bit 8 (ucast b1) OR push_bit 16 (ucast b2) OR push_bit 24 (ucast b3)"

text \<open>
  \<open>readFloatLE(offset)\<close> raises a \<open>RangeError\<close> unless \<open>offset + 4 \<le> length\<close>.
\<close>

definition readFloatLE :: "(32 word \<Rightarrow> jsnum) \<Rightarrow> Buffer \<Rightarrow> nat \<Rightarrow> error + jsnum" where
  "readFloatLE dec buffer offset =
     (if offset + 4 \<le> length buffer
      then Inr (dec (le_word (buffer ! offset) (buffer ! (offset + 1))
                             (buffer ! (offset + 2)) (buffer ! (offset + 3))))
      else Inl RangeError)"

text \<open>
  \<open>serializeEmbedding\<close>: the buffer has \<open>embedding.length * 4\<close> bytes and the loop
  writes the values one after the other, so the buffer is the concatenation of the
  four-byte groups.
\<close>

fun serializeEmbedding :: "(jsnum \<Rightarrow> 32 word) \<Rightarrow> Embedding \<Rightarrow> Buffer" where
  "serializeEmbedding enc [] = []"
| "serializeEmbedding enc (value # rest) = writeFloatLE enc value @ serializeEmbedding enc rest"

text \<open>
  \<open>deserializeEmbedding\<close>: \<open>length = buffer.length / 4\<close> is a division of doubles, so
  \<open>i < length\<close> is \<open>4 * i < buffer.length\<close>; the loop reads at offset \<open>i * 4\<close> and
  pushes. A buffer whose length is not a multiple of four makes the last read raise.
\<close>

function deserialize_loop ::
  "(32 word \<Rightarrow> jsnum) \<Rightarrow> Buffer \<Rightarrow> nat \<Rightarrow> Embedding \<Rightarrow> error + Embedding" where
  "deserialize_loop dec buffer i embedding =
     (if 4 * i < length buffer
      then (case readFloatLE dec buffer (i * 4) of
              Inl e \<Rightarrow> Inl e
            | Inr x \<Rightarrow> deserialize_loop dec buffer (i + 1) (embedding @ [x]))
      else Inr embedding)"
  by pat_completeness auto
termination
  by (relation "measure (\<lambda>(dec, buffer, i, embedding). length buffer - 4 * i)") auto

declare deserialize_loop.simps [simp del]

definition deserializeEmbedding :: "(32 word \<Rightarrow> jsnum) \<Rightarrow> Buffer \<Rightarrow> error + Embedding" where
  "deserializeEmbedding dec buffer = deserialize_loop dec buffer 0 []"

text \<open>
  \<open>cosineSimilarity\<close>: the lengths are compared first; the loop runs over the common
  index range and accumulates the dot product and the two sums of squares.
\<close>

definition cosine_step ::
  "arith \<Rightarrow> jsnum \<times> jsnum \<times> jsnum \<Rightarrow> jsnum \<times> jsnum \<Rightarrow> jsnum \<times> jsnum \<times> jsnum" where
  "cosine_step ar acc xy =
     (case acc of (dotProduct, normA, normB) \<Rightarrow>
        (case xy of (x, y) \<Rightarrow>
           (ar_add ar dotProduct (ar_mul ar x y), ar_add ar normA (ar_mul ar x x),
            ar_add ar normB (ar_mul ar y y))))"

definition cosineSimilarity :: "arith \<Rightarrow> Embedding \<Rightarrow> Embedding \<Rightarrow> error + jsnum" where
  "cosineSimilarity ar a b =
     (if length a \<noteq> length b then Inl (DimensionMismatch (length a) (length b))
      else
        (case foldl (cosine_step ar) (Num 0, Num 0, Num 0) (zip a b) of
           (dotProduct, sumA, sumB) \<Rightarrow>
             (let normA = ar_sqrt ar sumA; normB = ar_sqrt ar sumB
              in if normA = Num 0 \<or> normB = Num 0 then Inr (Num 0)
                 else Inr (ar_div ar dotProduct (ar_mul ar normA normB)))))"

definition magnitude :: "arith \<Rightarrow> Embedding \<Rightarrow> jsnum" where
  "magnitude ar vector =
     ar_sqrt ar (foldl (\<lambda>sum value. ar_add ar sum (ar_mul ar value value)) (Num 0) vector)"

definition validateDimensions :: "Embedding \<Rightarrow> nat \<Rightarrow> error + unit" where
  "validateDimensions embedding expectedDimensions =
     (if length embedding \<noteq> expectedDimensions
      then Inl (DimensionMismatch (length embedding) expectedDimensions)
      else Inr ())"

section \<open>The SQL engine as seen through a client\<close>

text \<open>
  The engine is outside the repository; the model keeps what the statements of the source
  read and write. A data table is a list of rows in the engine's iteration order. The
  columns that all three row tables share are fields of \<open>row\<close>; the columns of one kind
  are in \<open>row_cols\<close>. A timestamp column is kept as the milliseconds since the epoch
  that \<open>new Date(text)\<close> reads from it: for the text of \<open>Date.toISOString()\<close> that is
  the reading that was written. Tags are kept as the list that \<open>JSON.stringify\<close>
  encodes, metadata as its JSON text. The engine compares table names without regard to
  the case of ASCII letters; quoting, qualification by a schema name and SQL text
  smuggled in through a name are not modelled.
\<close>

datatype cols =
    RuleCols (col_tags: "string list") (col_tier: int)
  | DocCols (col_project_id: string) (col_title: string) (col_file_path: "string option")
      (col_doc_tags: "string list")
  | RefCols (col_name: string) (col_channel_id: "string option")

record row =
  row_id :: string
  row_content :: string
  row_embedding :: "Buffer option"
  row_metadata :: "string option"
  row_created_at :: nat
  row_updated_at :: nat
  row_cols :: cols

record db_data =
  tables :: "string \<rightharpoonup> row list"
  migration_rows :: "(int \<times> string) list option"
  indexes :: "(string \<times> string) set"
  triggers :: "(string \<times> string) set"

text \<open>
  \<open>snapshot\<close> is the state to which \<open>ROLLBACK\<close> returns while a transaction is open.
\<close>

record db =
  data :: db_data
  snapshot :: "db_data option"

definition no_such_table :: "string \<Rightarrow> error" where
  "no_such_table t = StorageError (''no such table: '' @ t)"

definition exec_begin :: "db \<Rightarrow> (error + unit) \<times> db" where
  "exec_begin d =
     (case snapshot d of
        Some _ \<Rightarrow> (Inl (StorageError ''cannot start a transaction within a transaction''), d)
      | None \<Rightarrow> (Inr (), d\<lparr>snapshot := Some (data d)\<rparr>))"

definition exec_commit :: "db \<Rightarrow> (error + unit) \<times> db" where
  "exec_commit d =
     (case snapshot d of
        None \<Rightarrow> (Inl (StorageError ''cannot commit - no transaction is active''), d)
      | Some _ \<Rightarrow> (Inr (), d\<lparr>snapshot := None\<rparr>))"

definition exec_rollback :: "db \<Rightarrow> (error + unit) \<times> db" where
  "exec_rollback d =
     (case snapshot d of
        None \<Rightarrow> (Inl (StorageError ''cannot rollback - no transaction is active''), d)
      | Some old \<Rightarrow> (Inr (), d\<lparr>data := old, snapshot := None\<rparr>))"

definition lower_char :: "char \<Rightarrow> char" where
  "lower_char c =
     (case map_of (zip ''ABCDEFGHIJKLMNOPQRSTUVWXYZ'' ''abcdefghijklmnopqrstuvwxyz'') c of
        None \<Rightarrow> c | Some l \<Rightarrow> l)"

definition table_key :: "string \<Rightarrow> string" where
  "table_key t = map lower_char t"

definition find_table :: "string \<Rightarrow> db \<Rightarrow> row list option" where
  "find_table t d = tables (data d) (table_key t)"

definition set_table :: "string \<Rightarrow> row list \<Rightarrow> db \<Rightarrow> db" where
  "set_table t rows d =
     d\<lparr>data := (data d)\<lparr>tables := (tables (data d))(table_key t \<mapsto> rows)\<rparr>\<rparr>"

text \<open>
  The three triggers of the schema, \<open>AFTER UPDATE ON t BEGIN UPDATE t SET updated_at =
  CURRENT_TIMESTAMP WHERE id = NEW.id; END\<close>: once a trigger on the table exists, an
  \<open>UPDATE\<close> leaves in \<open>updated_at\<close> of every row it changed the engine's
  \<open>CURRENT_TIMESTAMP\<close>, whatever the statement wrote there. \<open>ts\<close> is that timestamp as
  \<open>new Date(text)\<close> reads it back (the engine writes it to the second, in its own text
  format); the statements of one call are given one \<open>ts\<close>.
\<close>

definition has_trigger :: "string \<Rightarrow> db \<Rightarrow> bool" where
  "has_trigger t d = (table_key t \<in> snd ` triggers (data d))"

definition fire_trigger :: "nat \<Rightarrow> string \<Rightarrow> db \<Rightarrow> row \<Rightarrow> row" where
  "fire_trigger ts t d r = (if has_trigger t d then r\<lparr>row_updated_at := ts\<rparr> else r)"

text \<open>The \<open>CHECK (tier >= 1 AND tier <= 5)\<close> of the \<open>rules\<close> table.\<close>

definition check_constraints :: "row \<Rightarrow> bool" where
  "check_constraints r =
     (case row_cols r of RuleCols tags tier \<Rightarrow> 1 \<le> tier \<and> tier \<le> 5 | _ \<Rightarrow> True)"

text \<open>\<open>INSERT INTO t (...) VALUES (...)\<close>: the primary key \<open>id\<close> is unique.\<close>

definition exec_insert :: "string \<Rightarrow> row \<Rightarrow> db \<Rightarrow> (error + unit) \<times> db" where
  "exec_insert t r d =
     (case find_table t d of
        None \<Rightarrow> (Inl (no_such_table t), d)
      | Some rows \<Rightarrow>
          if row_id r \<in> set (map row_id rows)
          then (Inl (StorageError ''UNIQUE constraint failed''), d)
          else if \<not> check_constraints r
          then (Inl (StorageError ''CHECK constraint failed''), d)
          else (Inr (), set_table t (rows @ [r]) d))"

text \<open>\<open>SELECT * FROM t WHERE id = ?\<close>: the rows with this id, in iteration order.\<close>

definition exec_select_by_id :: "string \<Rightarrow> string \<Rightarrow> db \<Rightarrow> error + row list" where
  "exec_select_by_id t i d =
     (case find_table t d of
        None \<Rightarrow> Inl (no_such_table t)
      | Some rows \<Rightarrow> Inr (filter (\<lambda>r. row_id r = i) rows))"

text \<open>
  \<open>UPDATE t SET ... WHERE id = ?\<close>: \<open>f\<close> is the assignment of the \<open>SET\<close> clause,
  and the trigger of the table fires on the rows that were updated.
\<close>

definition exec_update_by_id ::
  "nat \<Rightarrow> string \<Rightarrow> string \<Rightarrow> (row \<Rightarrow> row) \<Rightarrow> db \<Rightarrow> (error + unit) \<times> db" where
  "exec_update_by_id ts t i f d =
     (case find_table t d of
        None \<Rightarrow> (Inl (no_such_table t), d)
      | Some rows \<Rightarrow>
          if list_ex (\<lambda>r. row_id r = i \<and> \<not> check_constraints (f r)) rows
          then (Inl (StorageError ''CHECK constraint failed''), d)
          else (Inr (),
                set_table t
                  (map (\<lambda>r. if row_id r = i then fire_trigger ts t d (f r) else r) rows) d))"

text \<open>\<open>DELETE FROM t WHERE id = ?\<close>, with \<open>rowsAffected\<close>.\<close>

definition exec_delete_by_id :: "string \<Rightarrow> string \<Rightarrow> db \<Rightarrow> (error + nat) \<times> db" where
  "exec_delete_by_id t i d =
     (case find_table t d of
        None \<Rightarrow> (Inl (no_such_table t), d)
      | Some rows \<Rightarrow>
          (Inr (length (filter (\<lambda>r. row_id r = i) rows)),
           set_table t (filter (\<lambda>r. row_id r \<noteq> i) rows) d))"

text \<open>\<open>SELECT id, content, embedding, metadata FROM t WHERE embedding IS NOT NULL\<close>.\<close>

definition exec_select_embedded :: "string \<Rightarrow> db \<Rightarrow> error + row list" where
  "exec_select_embedded t d =
     (case find_table t d of
        None \<Rightarrow> Inl (no_such_table t)
      | Some rows \<Rightarrow> Inr (filter (\<lambda>r. row_embedding r \<noteq> None) rows))"

section \<open>Row storage (\<open>RuleStorage\<close>)\<close>

record Rule =
  rule_id :: string
  rule_content :: string
  rule_embedding :: "Embedding option"
  rule_tags :: "string list"
  rule_tier :: int
  rule_metadata :: "string option"
  rule_created_at :: nat
  rule_updated_at :: nat

text \<open>
  \<open>Partial<Rule>\<close>: a field is \<open>None\<close> when the key is absent from the object.
\<close>

record RuleUpdates =
  upd_id :: "string option"
  upd_content :: "string option"
  upd_embedding :: "Embedding option"
  upd_tags :: "string list option"
  upd_tier :: "int option"
  upd_metadata :: "string option"
  upd_created_at :: "nat option"
  upd_updated_at :: "nat option"

text \<open>
  \<open>serializeMetadata\<close> maps an absent metadata to \<open>null\<close>; \<open>deserializeMetadata\<close> maps
  \<open>null\<close> and the empty text (both falsy) to \<open>undefined\<close>.
\<close>

definition deserializeMetadata :: "string option \<Rightarrow> string option" where
  "deserializeMetadata m = (case m of None \<Rightarrow> None | Some s \<Rightarrow> if s = [] then None else Some s)"

text \<open>
  \<open>RuleStorage.create\<close>: \<open>now\<close> is the reading of \<open>new Date()\<close>. The argument has no
  timestamps (\<open>Omit<Rule, 'created_at' | 'updated_at'>\<close>): those of \<open>rule\<close> are ignored
  and both are set to \<open>now\<close>. The \<open>INSERT\<close> names no embedding column.
\<close>

definition RuleStorage_create :: "nat \<Rightarrow> Rule \<Rightarrow> db \<Rightarrow> (error + Rule) \<times> db" where
  "RuleStorage_create now rule d =
     (case exec_insert ''rules''
             \<lparr>row_id = rule_id rule, row_content = rule_content rule, row_embedding = None,
              row_metadata = rule_metadata rule, row_created_at = now, row_updated_at = now,
              row_cols = RuleCols (rule_tags rule) (rule_tier rule)\<rparr> d of
        (Inl e, d') \<Rightarrow> (Inl e, d')
      | (Inr _, d') \<Rightarrow> (Inr (rule\<lparr>rule_created_at := now, rule_updated_at := now\<rparr>), d'))"

text \<open>
  \<open>RuleStorage.findById\<close>. A row of \<open>rules\<close> whose kind columns are not those of a rule
  cannot be read as one; the engine's typing excludes it, the model reports it as an error.
\<close>

definition rule_of_row :: "row \<Rightarrow> error + Rule" where
  "rule_of_row r =
     (case row_cols r of
        RuleCols tags tier \<Rightarrow>
          Inr \<lparr>rule_id = row_id r, rule_content = row_content r, rule_embedding = None,
               rule_tags = tags, rule_tier = tier,
               rule_metadata = deserializeMetadata (row_metadata r),
               rule_created_at = row_created_at r, rule_updated_at = row_updated_at r\<rparr>
      | _ \<Rightarrow> Inl (StorageError ''not a row of rules''))"

definition RuleStorage_findById :: "string \<Rightarrow> db \<Rightarrow> error + Rule option" where
  "RuleStorage_findById i d =
     (case exec_select_by_id ''rules'' i d of
        Inl e \<Rightarrow> Inl e
      | Inr [] \<Rightarrow> Inr None
      | Inr (r # _) \<Rightarrow> (case rule_of_row r of Inl e \<Rightarrow> Inl e | Inr rule \<Rightarrow> Inr (Some rule)))"

text \<open>
  The object spread \<open>{ ...existing, ...updates, updated_at: new Date() }\<close>: a key of
  \<open>updates\<close> replaces that of \<open>existing\<close>, and \<open>updated_at\<close> is set last.
\<close>

definition merge_rule :: "Rule \<Rightarrow> RuleUpdates \<Rightarrow> nat \<Rightarrow> Rule" where
  "merge_rule existing updates now =
     \<lparr>rule_id = (case upd_id updates of None \<Rightarrow> rule_id existing | Some v \<Rightarrow> v),
      rule_content = (case upd_content updates of None \<Rightarrow> rule_content existing | Some v \<Rightarrow> v),
      rule_embedding =
        (case upd_embedding updates of None \<Rightarrow> rule_embedding existing | Some v \<Rightarrow> Some v),
      rule_tags = (case upd_tags updates of None \<Rightarrow> rule_tags existing | Some v \<Rightarrow> v),
      rule_tier = (case upd_tier updates of None \<Rightarrow> rule_tier existing | Some v \<Rightarrow> v),
      rule_metadata =
        (case upd_metadata updates of None \<Rightarrow> rule_metadata existing | Some v \<Rightarrow> Some v),
      rule_created_at =
        (case upd_created_at updates of None \<Rightarrow> rule_created_at existing | Some v \<Rightarrow> v),
      rule_updated_at = now\<rparr>"

text \<open>
  \<open>RuleStorage.update\<close>: read, merge, write the mutable columns back. The result is
  \<open>null\<close> when no row has the id.
\<close>

definition RuleStorage_update ::
  "nat \<Rightarrow> nat \<Rightarrow> string \<Rightarrow> RuleUpdates \<Rightarrow> db \<Rightarrow> (error + Rule option) \<times> db" where
  "RuleStorage_update now ts i updates d =
     (case RuleStorage_findById i d of
        Inl e \<Rightarrow> (Inl e, d)
      | Inr None \<Rightarrow> (Inr None, d)
      | Inr (Some existing) \<Rightarrow>
          (let updatedRule = merge_rule existing updates now
           in case exec_update_by_id ts ''rules'' i
                     (\<lambda>r. r\<lparr>row_content := rule_content updatedRule,
                             row_cols := RuleCols (rule_tags updatedRule) (rule_tier updatedRule),
                             row_metadata := rule_metadata updatedRule,
                             row_updated_at := rule_updated_at updatedRule\<rparr>) d of
                (Inl e, d') \<Rightarrow> (Inl e, d')
              | (Inr _, d') \<Rightarrow> (Inr (Some updatedRule), d')))"

definition RuleStorage_delete :: "string \<Rightarrow> db \<Rightarrow> (error + bool) \<times> db" where
  "RuleStorage_delete i d =
     (case exec_delete_by_id ''rules'' i d of
        (Inl e, d') \<Rightarrow> (Inl e, d')
      | (Inr n, d') \<Rightarrow> (Inr (0 < n), d'))"

section \<open>Vector index (\<open>VectorIndex\<close>)\<close>

datatype result_type = TypeRule | TypeProjectDoc | TypeRef

record SearchResult =
  sr_id :: string
  sr_content :: string
  similarity_score :: jsnum
  sr_type :: result_type
  sr_metadata :: "string option"

text \<open>
  \<open>VectorSearchOptions\<close>: a field is \<open>None\<close> when the property is absent, and the
  destructuring then takes the default.
\<close>

record VectorSearchOptions =
  opt_limit :: "jsnum option"
  opt_threshold :: "jsnum option"
  opt_includeMetadata :: "bool option"

text \<open>
  \<open>getTableType\<close>, the only place that compares a table name with the three known
  names. \<open>searchInTable\<close> calls it; \<open>storeEmbedding\<close> does not.
\<close>

definition getTableType :: "string \<Rightarrow> error + result_type" where
  "getTableType table =
     (if table = ''rules'' then Inr TypeRule
      else if table = ''project_docs'' then Inr TypeProjectDoc
      else if table = ''refs'' then Inr TypeRef
      else Inl (UnknownTable table))"

text \<open>
  \<open>storeEmbedding\<close>: validate the dimension, serialize, and run
  \<open>UPDATE ${table} SET embedding = ? WHERE id = ?\<close>. The table name goes into the
  statement as it is given; the model reads it as the name of the table (SQL text smuggled
  in through the name is not modelled).
\<close>

definition storeEmbedding ::
  "(jsnum \<Rightarrow> 32 word) \<Rightarrow> nat \<Rightarrow> nat \<Rightarrow> string \<Rightarrow> string \<Rightarrow> Embedding \<Rightarrow> db \<Rightarrow> (error + unit) \<times> db" where
  "storeEmbedding enc vectorDimensions ts table i embedding d =
     (case validateDimensions embedding vectorDimensions of
        Inl e \<Rightarrow> (Inl e, d)
      | Inr _ \<Rightarrow>
          (let serialized = serializeEmbedding enc embedding
           in exec_update_by_id ts table i (\<lambda>r. r\<lparr>row_embedding := Some serialized\<rparr>) d))"

record EmbeddingDoc =
  doc_table :: string
  doc_id :: string
  doc_embedding :: Embedding

fun storeEmbeddings ::
  "(jsnum \<Rightarrow> 32 word) \<Rightarrow> nat \<Rightarrow> nat \<Rightarrow> EmbeddingDoc list \<Rightarrow> db \<Rightarrow> (error + unit) \<times> db" where
  "storeEmbeddings enc dims ts [] d = (Inr (), d)"
| "storeEmbeddings enc dims ts (doc # documents) d =
     (case storeEmbedding enc dims ts (doc_table doc) (doc_id doc) (doc_embedding doc) d of
        (Inl e, d') \<Rightarrow> (Inl e, d')
      | (Inr _, d') \<Rightarrow> storeEmbeddings enc dims ts documents d')"

text \<open>
  \<open>batchStoreEmbeddings\<close>: \<open>BEGIN\<close> is outside the \<open>try\<close>; a failure of an update or
  of \<open>COMMIT\<close> runs \<open>ROLLBACK\<close> and rethrows (a failing \<open>ROLLBACK\<close> raises its own
  error instead).
\<close>

definition batchStoreEmbeddings ::
  "(jsnum \<Rightarrow> 32 word) \<Rightarrow> nat \<Rightarrow> nat \<Rightarrow> EmbeddingDoc list \<Rightarrow> db \<Rightarrow> (error + unit) \<times> db" where
  "batchStoreEmbeddings enc dims ts documents d =
     (case exec_begin d of
        (Inl e, d0) \<Rightarrow> (Inl e, d0)
      | (Inr _, d0) \<Rightarrow>
          (case (case storeEmbeddings enc dims ts documents d0 of
                   (Inl e, d1) \<Rightarrow> (Inl e, d1)
                 | (Inr _, d1) \<Rightarrow> exec_commit d1) of
             (Inr _, d2) \<Rightarrow> (Inr (), d2)
           | (Inl e, d2) \<Rightarrow>
               (case exec_rollback d2 of
                  (Inl e', d3) \<Rightarrow> (Inl e', d3)
                | (Inr _, d3) \<Rightarrow> (Inl e, d3))))"

text \<open>
  One row of the scan. \<open>Buffer.from(null)\<close> raises a \<open>TypeError\<close>; the query selects
  rows with an embedding only. The metadata is parsed only for a row that passes the
  threshold, and only when it is wanted and truthy (not \<open>null\<close>, not the empty text);
  \<open>parse\<close> is \<open>JSON.parse\<close>, \<open>None\<close> when it raises.
\<close>

definition result_metadata ::
  "(string \<Rightarrow> string option) \<Rightarrow> bool \<Rightarrow> string option \<Rightarrow> error + string option" where
  "result_metadata parse includeMetadata m =
     (case m of
        None \<Rightarrow> Inr None
      | Some s \<Rightarrow>
          if includeMetadata \<and> s \<noteq> []
          then (case parse s of None \<Rightarrow> Inl SyntaxError | Some j \<Rightarrow> Inr (Some j))
          else Inr None)"

definition row_similarity :: "arith \<Rightarrow> (32 word \<Rightarrow> jsnum) \<Rightarrow> Embedding \<Rightarrow> row \<Rightarrow> error + jsnum" where
  "row_similarity ar dec queryEmbedding r =
     (case row_embedding r of
        None \<Rightarrow> Inl TypeError
      | Some buffer \<Rightarrow>
          (case deserializeEmbedding dec buffer of
             Inl e \<Rightarrow> Inl e
           | Inr embedding \<Rightarrow> cosineSimilarity ar queryEmbedding embedding))"

fun scan_rows ::
  "arith \<Rightarrow> (string \<Rightarrow> string option) \<Rightarrow> (32 word \<Rightarrow> jsnum) \<Rightarrow> Embedding \<Rightarrow> jsnum \<Rightarrow> bool \<Rightarrow> result_type
     \<Rightarrow> row list \<Rightarrow> SearchResult list \<Rightarrow> error + SearchResult list" where
  "scan_rows ar parse dec q threshold includeMetadata ty [] results = Inr results"
| "scan_rows ar parse dec q threshold includeMetadata ty (r # rows) results =
     (case row_similarity ar dec q r of
        Inl e \<Rightarrow> Inl e
      | Inr similarity \<Rightarrow>
          if js_ge similarity threshold
          then (case result_metadata parse includeMetadata (row_metadata r) of
                  Inl e \<Rightarrow> Inl e
                | Inr md \<Rightarrow>
                    scan_rows ar parse dec q threshold includeMetadata ty rows
                      (results @ [\<lparr>sr_id = row_id r, sr_content = row_content r,
                                   similarity_score = similarity, sr_type = ty,
                                   sr_metadata = md\<rparr>]))
          else scan_rows ar parse dec q threshold includeMetadata ty rows results)"

definition search_tables :: "(string \<times> result_type) list" where
  "search_tables =
     [(''rules'', TypeRule), (''project_docs'', TypeProjectDoc), (''refs'', TypeRef)]"

fun scan_tables ::
  "arith \<Rightarrow> (string \<Rightarrow> string option) \<Rightarrow> (32 word \<Rightarrow> jsnum) \<Rightarrow> Embedding \<Rightarrow> jsnum \<Rightarrow> bool
     \<Rightarrow> (string \<times> result_type) list \<Rightarrow> db \<Rightarrow> SearchResult list \<Rightarrow> error + SearchResult list" where
  "scan_tables ar parse dec q threshold includeMetadata [] d results = Inr results"
| "scan_tables ar parse dec q threshold includeMetadata ((tableName, ty) # ts) d results =
     (case exec_select_embedded tableName d of
        Inl e \<Rightarrow> Inl e
      | Inr rows \<Rightarrow>
          (case scan_rows ar parse dec q threshold includeMetadata ty rows results of
             Inl e \<Rightarrow> Inl e
           | Inr results' \<Rightarrow> scan_tables ar parse dec q threshold includeMetadata ts d results'))"

text \<open>
  \<open>Array.prototype.sort\<close> with a comparator: \<open>a\<close> goes after \<open>b\<close> when
  \<open>cmp(a, b) > 0\<close>, a \<open>NaN\<close> result counts as zero, and the sort is stable. For a
  comparator that orders the elements consistently the result is determined; insertion
  from the right computes it.
\<close>

fun js_insort :: "('a \<Rightarrow> 'a \<Rightarrow> jsnum) \<Rightarrow> 'a \<Rightarrow> 'a list \<Rightarrow> 'a list" where
  "js_insort cmp x [] = [x]"
| "js_insort cmp x (y # ys) =
     (if js_gt (cmp x y) (Num 0) then y # js_insort cmp x ys else x # y # ys)"

fun js_sort :: "('a \<Rightarrow> 'a \<Rightarrow> jsnum) \<Rightarrow> 'a list \<Rightarrow> 'a list" where
  "js_sort cmp [] = []"
| "js_sort cmp (x # xs) = js_insort cmp x (js_sort cmp xs)"

text \<open>
  \<open>Array.prototype.slice(0, end)\<close>: \<open>end\<close> is truncated to an integer (\<open>NaN\<close> is 0);
  a negative \<open>end\<close> counts from the end of the array.
\<close>

definition js_slice0 :: "jsnum \<Rightarrow> 'a list \<Rightarrow> 'a list" where
  "js_slice0 end xs =
     (case end of
        NaN \<Rightarrow> []
      | PInf \<Rightarrow> xs
      | NInf \<Rightarrow> []
      | Num r \<Rightarrow>
          (let k = (if 0 \<le> r then \<lfloor>r\<rfloor> else \<lceil>r\<rceil>)
           in if k < 0 then take (nat (int (length xs) + k)) xs else take (nat k) xs))"

text \<open>
  The comparator \<open>(a, b) => b.similarity_score - a.similarity_score\<close>. Only the sign of
  the difference is used, and the rounded difference of two doubles has the sign of the
  exact one, so the difference is taken without rounding.
\<close>

definition by_similarity_desc :: "SearchResult \<Rightarrow> SearchResult \<Rightarrow> jsnum" where
  "by_similarity_desc a b = js_sub (similarity_score b) (similarity_score a)"

definition search_limit :: "VectorSearchOptions \<Rightarrow> jsnum" where
  "search_limit options = (case opt_limit options of None \<Rightarrow> Num 10 | Some l \<Rightarrow> l)"

definition search_threshold :: "VectorSearchOptions \<Rightarrow> jsnum" where
  "search_threshold options = (case opt_threshold options of None \<Rightarrow> Num (7 / 10) | Some t \<Rightarrow> t)"

definition search_includeMetadata :: "VectorSearchOptions \<Rightarrow> bool" where
  "search_includeMetadata options =
     (case opt_includeMetadata options of None \<Rightarrow> True | Some b \<Rightarrow> b)"

definition semanticSearch ::
  "arith \<Rightarrow> (string \<Rightarrow> string option) \<Rightarrow> (32 word \<Rightarrow> jsnum) \<Rightarrow> nat \<Rightarrow> Embedding \<Rightarrow> VectorSearchOptions
     \<Rightarrow> db \<Rightarrow> error + SearchResult list" where
  "semanticSearch ar parse dec vectorDimensions queryEmbedding options d =
     (case validateDimensions queryEmbedding vectorDimensions of
        Inl e \<Rightarrow> Inl e
      | Inr _ \<Rightarrow>
          (case scan_tables ar parse dec queryEmbedding (search_threshold options)
                  (search_includeMetadata options) search_tables d [] of
             Inl e \<Rightarrow> Inl e
           | Inr results \<Rightarrow>
               Inr (js_slice0 (search_limit options) (js_sort by_similarity_desc results))))"

text \<open>
  The candidates in the words of the specification, for a threshold and a choice of
  metadata given as such: the embedded rows of the three tables, in table order and then
  row order, whose similarity with the query reaches the threshold.
\<close>

definition reaches_threshold :: "arith \<Rightarrow> (32 word \<Rightarrow> jsnum) \<Rightarrow> Embedding \<Rightarrow> jsnum \<Rightarrow> row \<Rightarrow> bool" where
  "reaches_threshold ar dec q threshold r =
     (case row_similarity ar dec q r of Inl _ \<Rightarrow> False | Inr s \<Rightarrow> js_ge s threshold)"

definition candidate_of ::
  "arith \<Rightarrow> (string \<Rightarrow> string option) \<Rightarrow> (32 word \<Rightarrow> jsnum) \<Rightarrow> Embedding \<Rightarrow> bool \<Rightarrow> result_type \<Rightarrow> row
     \<Rightarrow> SearchResult" where
  "candidate_of ar parse dec q includeMetadata ty r =
     \<lparr>sr_id = row_id r, sr_content = row_content r,
      similarity_score = (case row_similarity ar dec q r of Inl _ \<Rightarrow> NaN | Inr s \<Rightarrow> s),
      sr_type = ty,
      sr_metadata =
        (case result_metadata parse includeMetadata (row_metadata r) of
           Inl _ \<Rightarrow> None | Inr md \<Rightarrow> md)\<rparr>"

definition table_candidates ::
  "arith \<Rightarrow> (string \<Rightarrow> string option) \<Rightarrow> (32 word \<Rightarrow> jsnum) \<Rightarrow> Embedding \<Rightarrow> jsnum \<Rightarrow> bool \<Rightarrow> result_type
     \<Rightarrow> row list \<Rightarrow> SearchResult list" where
  "table_candidates ar parse dec q threshold includeMetadata ty rows =
     map (candidate_of ar parse dec q includeMetadata ty)
       (filter (\<lambda>r. row_embedding r \<noteq> None \<and> reaches_threshold ar dec q threshold r) rows)"

definition search_candidates ::
  "arith \<Rightarrow> (string \<Rightarrow> string option) \<Rightarrow> (32 word \<Rightarrow> jsnum) \<Rightarrow> Embedding \<Rightarrow> jsnum \<Rightarrow> bool
     \<Rightarrow> row list \<Rightarrow> row list \<Rightarrow> row list \<Rightarrow> SearchResult list" where
  "search_candidates ar parse dec q threshold includeMetadata rules project_docs refs =
     table_candidates ar parse dec q threshold includeMetadata TypeRule rules
     @ table_candidates ar parse dec q threshold includeMetadata TypeProjectDoc project_docs
     @ table_candidates ar parse dec q threshold includeMetadata TypeRef refs"

text \<open>
  The data invariant of the store: a row has no embedding or one of the configured
  dimension, and its metadata is absent or JSON text.
\<close>

definition row_wellformed ::
  "(string \<Rightarrow> string option) \<Rightarrow> (32 word \<Rightarrow> jsnum) \<Rightarrow> nat \<Rightarrow> row \<Rightarrow> bool" where
  "row_wellformed parse dec dims r =
     ((case row_embedding r of
         None \<Rightarrow> True
       | Some buffer \<Rightarrow>
           (case deserializeEmbedding dec buffer of
              Inl _ \<Rightarrow> False | Inr e \<Rightarrow> length e = dims))
      \<and> (case row_metadata r of None \<Rightarrow> True | Some s \<Rightarrow> s = [] \<or> parse s \<noteq> None))"

section \<open>Schema and migrations (\<open>MigrationRunner\<close>)\<close>

text \<open>
  The statements of \<open>INITIAL_SCHEMA\<close>. Each is \<open>CREATE ... IF NOT EXISTS\<close>: it does
  nothing when the object exists. An index or a trigger on a table that does not exist is
  an error of the engine.
\<close>

datatype ddl =
    CreateMigrationsTable
  | CreateTable string
  | CreateIndex string string
  | CreateTrigger string string

definition SCHEMA_VERSION :: int where
  "SCHEMA_VERSION = 1"

definition CREATE_INDEXES :: "ddl list" where
  "CREATE_INDEXES =
     [CreateIndex ''idx_rules_tier'' ''rules'',
      CreateIndex ''idx_rules_created_at'' ''rules'',
      CreateIndex ''idx_rules_updated_at'' ''rules'',
      CreateIndex ''idx_project_docs_project_id'' ''project_docs'',
      CreateIndex ''idx_project_docs_created_at'' ''project_docs'',
      CreateIndex ''idx_project_docs_updated_at'' ''project_docs'',
      CreateIndex ''idx_refs_channel_id'' ''refs'',
      CreateIndex ''idx_refs_name'' ''refs'',
      CreateIndex ''idx_refs_created_at'' ''refs'',
      CreateIndex ''idx_refs_updated_at'' ''refs'']"

definition CREATE_TRIGGERS :: "ddl list" where
  "CREATE_TRIGGERS =
     [CreateTrigger ''update_rules_timestamp'' ''rules'',
      CreateTrigger ''update_project_docs_timestamp'' ''project_docs'',
      CreateTrigger ''update_refs_timestamp'' ''refs'']"

definition INITIAL_SCHEMA :: "ddl list" where
  "INITIAL_SCHEMA =
     [CreateMigrationsTable, CreateTable ''rules'', CreateTable ''project_docs'',
      CreateTable ''refs''] @ CREATE_INDEXES @ CREATE_TRIGGERS"

definition add_index :: "string \<Rightarrow> string \<Rightarrow> db \<Rightarrow> (error + unit) \<times> db" where
  "add_index name t d =
     (case find_table t d of
        None \<Rightarrow> (Inl (no_such_table t), d)
      | Some _ \<Rightarrow>
          if name \<in> fst ` indexes (data d) then (Inr (), d)
          else (Inr (),
                d\<lparr>data := (data d)\<lparr>indexes := insert (name, table_key t) (indexes (data d))\<rparr>\<rparr>))"

definition add_trigger :: "string \<Rightarrow> string \<Rightarrow> db \<Rightarrow> (error + unit) \<times> db" where
  "add_trigger name t d =
     (case find_table t d of
        None \<Rightarrow> (Inl (no_such_table t), d)
      | Some _ \<Rightarrow>
          if name \<in> fst ` triggers (data d) then (Inr (), d)
          else (Inr (),
                d\<lparr>data := (data d)\<lparr>triggers := insert (name, table_key t) (triggers (data d))\<rparr>\<rparr>))"

fun exec_ddl :: "ddl \<Rightarrow> db \<Rightarrow> (error + unit) \<times> db" where
  "exec_ddl CreateMigrationsTable d =
     (case migration_rows (data d) of
        None \<Rightarrow> (Inr (), d\<lparr>data := (data d)\<lparr>migration_rows := Some []\<rparr>\<rparr>)
      | Some _ \<Rightarrow> (Inr (), d))"
| "exec_ddl (CreateTable t) d =
     (case find_table t d of
        None \<Rightarrow> (Inr (), set_table t [] d)
      | Some _ \<Rightarrow> (Inr (), d))"
| "exec_ddl (CreateIndex name t) d = add_index name t d"
| "exec_ddl (CreateTrigger name t) d = add_trigger name t d"

text \<open>
  \<open>INSERT INTO schema_migrations (version, description) VALUES (?, ?)\<close>: \<open>version\<close>
  is the primary key.
\<close>

definition exec_insert_migration :: "int \<Rightarrow> string \<Rightarrow> db \<Rightarrow> (error + unit) \<times> db" where
  "exec_insert_migration version description d =
     (case migration_rows (data d) of
        None \<Rightarrow> (Inl (no_such_table ''schema_migrations''), d)
      | Some rows \<Rightarrow>
          if version \<in> set (map fst rows)
          then (Inl (StorageError ''UNIQUE constraint failed''), d)
          else (Inr (),
                d\<lparr>data := (data d)\<lparr>migration_rows := Some (rows @ [(version, description)])\<rparr>\<rparr>))"

text \<open>
  \<open>getCurrentVersion\<close>: the greatest version of \<open>schema_migrations\<close>; 0 when the table
  is empty, and 0 when the query fails (the table does not exist).
\<close>

definition getCurrentVersion :: "db \<Rightarrow> int" where
  "getCurrentVersion d =
     (case migration_rows (data d) of
        None \<Rightarrow> 0
      | Some rows \<Rightarrow> if rows = [] then 0 else Max (set (map fst rows)))"

fun run_statements :: "ddl list \<Rightarrow> db \<Rightarrow> (error + unit) \<times> db" where
  "run_statements [] d = (Inr (), d)"
| "run_statements (statement # rest) d =
     (case exec_ddl statement d of
        (Inl e, d') \<Rightarrow> (Inl e, d')
      | (Inr _, d') \<Rightarrow> run_statements rest d')"

text \<open>
  The body of the \<open>try\<close> of \<open>initializeSchema\<close>, and \<open>initializeSchema\<close>: the
  \<open>catch\<close> runs \<open>ROLLBACK\<close> and rethrows.
\<close>

definition initialize_body :: "db \<Rightarrow> (error + unit) \<times> db" where
  "initialize_body d =
     (case exec_begin d of
        (Inl e, d0) \<Rightarrow> (Inl e, d0)
      | (Inr _, d0) \<Rightarrow>
          (case run_statements INITIAL_SCHEMA d0 of
             (Inl e, d1) \<Rightarrow> (Inl e, d1)
           | (Inr _, d1) \<Rightarrow>
               (case exec_insert_migration SCHEMA_VERSION ''Initial schema'' d1 of
                  (Inl e, d2) \<Rightarrow> (Inl e, d2)
                | (Inr _, d2) \<Rightarrow> exec_commit d2)))"

definition initializeSchema :: "db \<Rightarrow> (error + unit) \<times> db" where
  "initializeSchema d =
     (let currentVersion = getCurrentVersion d
      in if currentVersion = 0
         then (case initialize_body d of
                 (Inr _, d3) \<Rightarrow> (Inr (), d3)
               | (Inl e, d3) \<Rightarrow>
                   (case exec_rollback d3 of
                      (Inl e', d4) \<Rightarrow> (Inl e', d4)
                    | (Inr _, d4) \<Rightarrow> (Inl e, d4)))
         else (Inr (), d))"

text \<open>The tables (by key) a statement list can rely on, given those in \<open>T\<close>.\<close>

fun tables_precede :: "string set \<Rightarrow> ddl list \<Rightarrow> bool" where
  "tables_precede T [] = True"
| "tables_precede T (CreateMigrationsTable # rest) = tables_precede T rest"
| "tables_precede T (CreateTable t # rest) = tables_precede (insert (table_key t) T) rest"
| "tables_precede T (CreateIndex name t # rest) = (table_key t \<in> T \<and> tables_precede T rest)"
| "tables_precede T (CreateTrigger name t # rest) = (table_key t \<in> T \<and> tables_precede T rest)"

definition fresh_db :: db where
  "fresh_db =
     \<lparr>data = \<lparr>tables = Map.empty, migration_rows = None, indexes = {}, triggers = {}\<rparr>,
      snapshot = None\<rparr>"

section \<open>Connection pool (\<open>ConnectionPool\<close>)\<close>

text \<open>
  The pool is driven by events: JavaScript runs each piece of code between two
  \<open>await\<close>s without interruption, so a step of the model is the synchronous piece that
  an event starts. A connection is a number; a call of \<open>getConnection\<close> (or of
  \<open>createConnection\<close> from \<open>initialize\<close>) is named by a number too, and
  \<open>suspended\<close> records at which \<open>await\<close> it waits. \<open>outcomes\<close> holds the settled
  promises. \<open>activeConnections\<close> is a \<open>Set\<close>: a list without repetition.
\<close>

datatype suspension =
    AwaitHealth nat
  | AwaitConnect nat
  | AwaitInitConnect nat
  | AwaitDisconnect
  | InQueue

record pool =
  connections :: "nat list"
  availableConnections :: "nat list"
  activeConnections :: "nat list"
  waitingQueue :: "nat list"
  maxConnections :: nat
  isShuttingDown :: bool
  suspended :: "nat \<rightharpoonup> suspension"
  outcomes :: "nat \<rightharpoonup> error + nat"
  next_connection :: nat
  reaper_pending :: "nat list"
  closing :: bool

record PoolStats =
  stats_activeConnections :: nat
  stats_idleConnections :: nat
  stats_totalConnections :: nat
  stats_maxConnections :: nat
  stats_waitingRequests :: nat

datatype event =
    CallCreateConnection nat
  | CallGetConnection nat
  | Connected nat bool
  | HealthChecked nat bool
  | Disconnected nat
  | CallReleaseConnection nat
  | TimerFired nat
  | ReaperTick
  | ReaperDisconnected
  | CallShutdown
  | ShutdownClosed

definition new_pool :: "nat \<Rightarrow> pool" where
  "new_pool m =
     \<lparr>connections = [], availableConnections = [], activeConnections = [], waitingQueue = [],
      maxConnections = m, isShuttingDown = False, suspended = Map.empty, outcomes = Map.empty,
      next_connection = 0, reaper_pending = [], closing = False\<rparr>"

definition settle :: "nat \<Rightarrow> error + nat \<Rightarrow> pool \<Rightarrow> pool" where
  "settle g r s = s\<lparr>outcomes := (outcomes s)(g \<mapsto> r), suspended := (suspended s)(g := None)\<rparr>"

definition unused :: "nat \<Rightarrow> pool \<Rightarrow> bool" where
  "unused g s = (suspended s g = None \<and> outcomes s g = None)"

text \<open>
  \<open>createConnection\<close> up to \<open>await connection.connect()\<close>: the test of the limit and
  the new connection object. The pushes come after the \<open>await\<close>.
\<close>

definition createConnection_start :: "nat \<Rightarrow> (nat \<Rightarrow> suspension) \<Rightarrow> pool \<Rightarrow> (error + unit) \<times> pool" where
  "createConnection_start g wait s =
     (if maxConnections s \<le> length (connections s)
      then (Inl MaximumConnectionsReached, s)
      else (Inr (),
            s\<lparr>suspended := (suspended s)(g \<mapsto> wait (next_connection s)),
              next_connection := next_connection s + 1\<rparr>))"

definition createConnection_finish :: "nat \<Rightarrow> pool \<Rightarrow> pool" where
  "createConnection_finish c s =
     s\<lparr>connections := connections s @ [c], availableConnections := availableConnections s @ [c]\<rparr>"

text \<open>The last step of \<open>getConnection\<close>: queue a waiter (its timer is \<open>TimerFired\<close>).\<close>

definition enqueue_waiter :: "nat \<Rightarrow> pool \<Rightarrow> pool" where
  "enqueue_waiter g s =
     s\<lparr>waitingQueue := waitingQueue s @ [g], suspended := (suspended s)(g \<mapsto> InQueue)\<rparr>"

text \<open>
  \<open>getConnection\<close> from its start to its first \<open>await\<close>. A failure of
  \<open>createConnection\<close> is caught and logged, and the call goes on to wait.
\<close>

definition getConnection_start :: "nat \<Rightarrow> pool \<Rightarrow> pool" where
  "getConnection_start g s =
     (if isShuttingDown s then settle g (Inl PoolShuttingDown) s
      else if availableConnections s \<noteq> []
      then (let connection = last (availableConnections s)
            in s\<lparr>availableConnections := butlast (availableConnections s),
                 activeConnections := List.insert connection (activeConnections s),
                 suspended := (suspended s)(g \<mapsto> AwaitHealth connection)\<rparr>)
      else if length (connections s) < maxConnections s
      then (case createConnection_start g AwaitConnect s of
              (Inl _, s') \<Rightarrow> enqueue_waiter g s'
            | (Inr _, s') \<Rightarrow> s')
      else enqueue_waiter g s)"

text \<open>
  \<open>connect()\<close> has settled. For a call of \<open>getConnection\<close>, \<open>createConnection\<close>
  pushes the connection and \<open>getConnection\<close> then pops the available list, whatever is
  at its end, marks its own connection active and returns it.
\<close>

definition connected :: "nat \<Rightarrow> bool \<Rightarrow> pool \<Rightarrow> pool" where
  "connected g ok s =
     (case suspended s g of
        Some (AwaitConnect c) \<Rightarrow>
          if ok
          then (let s1 = createConnection_finish c s
                in settle g (Inr c)
                     (s1\<lparr>availableConnections := butlast (availableConnections s1),
                         activeConnections := List.insert c (activeConnections s1)\<rparr>))
          else enqueue_waiter g s
      | Some (AwaitInitConnect c) \<Rightarrow>
          if ok then settle g (Inr c) (createConnection_finish c s)
          else settle g (Inl (StorageError ''connect failed'')) s
      | _ \<Rightarrow> s)"

text \<open>\<open>removeConnection\<close> up to \<open>await connection.disconnect()\<close>.\<close>

definition removeConnection :: "nat \<Rightarrow> pool \<Rightarrow> pool" where
  "removeConnection c s =
     s\<lparr>activeConnections := removeAll c (activeConnections s),
       availableConnections := remove1 c (availableConnections s),
       connections := remove1 c (connections s)\<rparr>"

definition healthChecked :: "nat \<Rightarrow> bool \<Rightarrow> pool \<Rightarrow> pool" where
  "healthChecked g ok s =
     (case suspended s g of
        Some (AwaitHealth c) \<Rightarrow>
          if ok then settle g (Inr c) s
          else (removeConnection c s)\<lparr>suspended := (suspended s)(g \<mapsto> AwaitDisconnect)\<rparr>
      | _ \<Rightarrow> s)"

definition disconnected :: "nat \<Rightarrow> pool \<Rightarrow> pool" where
  "disconnected g s =
     (case suspended s g of
        Some AwaitDisconnect \<Rightarrow> getConnection_start g (s\<lparr>suspended := (suspended s)(g := None)\<rparr>)
      | _ \<Rightarrow> s)"

text \<open>
  \<open>releaseConnection\<close>: a connection that is not active is ignored; otherwise it leaves
  the active set, and it is given to the first waiter of the queue (and put back into the
  active set) or, with no waiter, pushed onto the available list.
\<close>

definition releaseConnection :: "nat \<Rightarrow> pool \<Rightarrow> pool" where
  "releaseConnection connection s =
     (if connection \<notin> set (activeConnections s) then s
      else (let s1 = s\<lparr>activeConnections := removeAll connection (activeConnections s)\<rparr>
            in case waitingQueue s1 of
                 waiter # rest \<Rightarrow>
                   settle waiter (Inr connection)
                     (s1\<lparr>waitingQueue := rest,
                         activeConnections := List.insert connection (activeConnections s1)\<rparr>)
               | [] \<Rightarrow> s1\<lparr>availableConnections := availableConnections s1 @ [connection]\<rparr>))"

text \<open>The timer of a waiter: it leaves the queue and its promise is rejected.\<close>

definition timerFired :: "nat \<Rightarrow> pool \<Rightarrow> pool" where
  "timerFired g s =
     (case suspended s g of
        Some InQueue \<Rightarrow>
          settle g (Inl CheckoutTimeout) (s\<lparr>waitingQueue := remove1 g (waitingQueue s)\<rparr>)
      | _ \<Rightarrow> s)"

text \<open>
  \<open>cleanupIdleConnections\<close>: the idle connections beyond two are taken off the front of
  the available list and removed one after the other, each removal waiting for the
  disconnect of the one before. A tick of the timer while an earlier run is still removing
  is left out of the model.
\<close>

definition reaper_next :: "pool \<Rightarrow> pool" where
  "reaper_next s =
     (case reaper_pending s of
        [] \<Rightarrow> s
      | c # rest \<Rightarrow> (removeConnection c s)\<lparr>reaper_pending := rest\<rparr>)"

definition cleanupIdleConnections :: "pool \<Rightarrow> pool" where
  "cleanupIdleConnections s =
     (if isShuttingDown s \<or> length (availableConnections s) \<le> 2 \<or> reaper_pending s \<noteq> [] then s
      else (let excessConnections = length (availableConnections s) - 2
            in reaper_next
                 (s\<lparr>reaper_pending := take excessConnections (availableConnections s),
                    availableConnections := drop excessConnections (availableConnections s)\<rparr>)))"

text \<open>
  \<open>shutdown\<close>: the flag, the rejection of every waiter, then the disconnects, and after
  them the clearing of the three collections.
\<close>

definition shutdown_start :: "pool \<Rightarrow> pool" where
  "shutdown_start s =
     (fold (\<lambda>w. settle w (Inl PoolShuttingDown)) (waitingQueue s) s)
       \<lparr>isShuttingDown := True, waitingQueue := [], closing := True\<rparr>"

definition shutdown_finish :: "pool \<Rightarrow> pool" where
  "shutdown_finish s =
     (if closing s
      then s\<lparr>connections := [], availableConnections := [], activeConnections := [],
             closing := False\<rparr>
      else s)"

fun pool_step :: "event \<Rightarrow> pool \<Rightarrow> pool" where
  "pool_step (CallCreateConnection g) s =
     (if unused g s
      then (case createConnection_start g AwaitInitConnect s of
              (Inl e, s') \<Rightarrow> settle g (Inl e) s'
            | (Inr _, s') \<Rightarrow> s')
      else s)"
| "pool_step (CallGetConnection g) s = (if unused g s then getConnection_start g s else s)"
| "pool_step (Connected g ok) s = connected g ok s"
| "pool_step (HealthChecked g ok) s = healthChecked g ok s"
| "pool_step (Disconnected g) s = disconnected g s"
| "pool_step (CallReleaseConnection c) s = releaseConnection c s"
| "pool_step (TimerFired g) s = timerFired g s"
| "pool_step ReaperTick s = cleanupIdleConnections s"
| "pool_step ReaperDisconnected s = reaper_next s"
| "pool_step CallShutdown s = shutdown_start s"
| "pool_step ShutdownClosed s = shutdown_finish s"

definition run_pool :: "event list \<Rightarrow> pool \<Rightarrow> pool" where
  "run_pool events s = fold pool_step events s"

definition getStats :: "pool \<Rightarrow> PoolStats" where
  "getStats s =
     \<lparr>stats_activeConnections = length (activeConnections s),
      stats_idleConnections = length (availableConnections s),
      stats_totalConnections = length (connections s),
      stats_maxConnections = maxConnections s,
      stats_waitingRequests = length (waitingQueue s)\<rparr>"

text \<open>The invariant of the specification, on the statistics.\<close>

definition pool_invariant :: "PoolStats \<Rightarrow> bool" where
  "pool_invariant st =
     (stats_activeConnections st + stats_idleConnections st \<le> stats_totalConnections st
      \<and> stats_totalConnections st \<le> stats_maxConnections st
      \<and> (if 0 < stats_waitingRequests st
          then stats_activeConnections st = stats_maxConnections st else True))"

text \<open>
  \<open>initialize()\<close> with \<open>maxConnections = 3\<close> starts two \<open>createConnection\<close> calls.
  Then four calls of \<open>getConnection\<close> are made before any of them settles (four
  operations of the service started together), the health probes and the connects
  settle, and a fifth call follows.
\<close>

definition burst_events :: "event list" where
  "burst_events =
     [CallCreateConnection 0, CallCreateConnection 1, Connected 0 True, Connected 1 True,
      CallGetConnection 10, CallGetConnection 11, CallGetConnection 12, CallGetConnection 13,
      HealthChecked 10 True, HealthChecked 11 True, Connected 12 True, Connected 13 True,
      CallGetConnection 14]"

definition saturated_pool :: pool where
  "saturated_pool = run_pool [CallGetConnection 0, Connected 0 True] (new_pool 1)"

section \<open>The cache (\<open>MemoryCache\<close> over \<open>LRUCache\<close>)\<close>

text \<open>
  \<open>LRUCache\<close> is the package \<open>lru-cache\<close>; the model follows its documented behaviour
  for the options the source sets (\<open>max\<close>, \<open>ttl\<close>, \<open>updateAgeOnGet\<close>). The items are
  kept most recently used first, each with the clock reading at which its age started. An
  item is stale once its age exceeds a non-zero \<open>ttl\<close>. \<open>get\<close> deletes a stale item and
  misses; \<open>set\<close> of a new key into a full cache evicts the least recently used item.
  Every operation takes the clock reading \<open>now\<close> of its call.
\<close>

record 'v CacheEntry =
  entry_value :: 'v
  entry_timestamp :: nat
  entry_hitCount :: nat

record 'v LRUCache =
  lru_items :: "(string \<times> 'v CacheEntry \<times> nat) list"
  lru_max :: nat
  lru_ttl :: nat
  lru_updateAgeOnGet :: bool

definition lru_stale :: "'v LRUCache \<Rightarrow> nat \<Rightarrow> nat \<Rightarrow> bool" where
  "lru_stale c now start = (lru_ttl c \<noteq> 0 \<and> lru_ttl c < now - start)"

definition lru_remove :: "string \<Rightarrow> 'v LRUCache \<Rightarrow> 'v LRUCache" where
  "lru_remove k c = c\<lparr>lru_items := filter (\<lambda>item. fst item \<noteq> k) (lru_items c)\<rparr>"

definition lru_get :: "nat \<Rightarrow> string \<Rightarrow> 'v LRUCache \<Rightarrow> 'v CacheEntry option \<times> 'v LRUCache" where
  "lru_get now k c =
     (case map_of (lru_items c) k of
        None \<Rightarrow> (None, c)
      | Some (e, start) \<Rightarrow>
          if lru_stale c now start then (None, lru_remove k c)
          else (Some e,
                c\<lparr>lru_items :=
                    (k, e, if lru_updateAgeOnGet c then now else start)
                    # filter (\<lambda>item. fst item \<noteq> k) (lru_items c)\<rparr>))"

definition lru_set :: "nat \<Rightarrow> string \<Rightarrow> 'v CacheEntry \<Rightarrow> 'v LRUCache \<Rightarrow> 'v LRUCache" where
  "lru_set now k e c =
     (if k \<in> set (map fst (lru_items c))
      then c\<lparr>lru_items := (k, e, now) # filter (\<lambda>item. fst item \<noteq> k) (lru_items c)\<rparr>
      else if lru_max c \<noteq> 0 \<and> lru_max c \<le> length (lru_items c)
      then c\<lparr>lru_items := (k, e, now) # butlast (lru_items c)\<rparr>
      else c\<lparr>lru_items := (k, e, now) # lru_items c\<rparr>)"

definition lru_has :: "nat \<Rightarrow> string \<Rightarrow> 'v LRUCache \<Rightarrow> bool" where
  "lru_has now k c =
     (case map_of (lru_items c) k of
        None \<Rightarrow> False
      | Some (e, start) \<Rightarrow> \<not> lru_stale c now start)"

definition lru_peek :: "nat \<Rightarrow> string \<Rightarrow> 'v LRUCache \<Rightarrow> 'v CacheEntry option" where
  "lru_peek now k c =
     (case map_of (lru_items c) k of
        None \<Rightarrow> None
      | Some (e, start) \<Rightarrow> if lru_stale c now start then None else Some e)"

definition lru_delete :: "string \<Rightarrow> 'v LRUCache \<Rightarrow> bool \<times> 'v LRUCache" where
  "lru_delete k c = (k \<in> set (map fst (lru_items c)), lru_remove k c)"

definition lru_purgeStale :: "nat \<Rightarrow> 'v LRUCache \<Rightarrow> 'v LRUCache" where
  "lru_purgeStale now c =
     c\<lparr>lru_items := filter (\<lambda>item. \<not> lru_stale c now (snd (snd item))) (lru_items c)\<rparr>"

text \<open>
  Replacing the stored entry object's \<open>hitCount\<close> (\<open>entry.hitCount++\<close> acts on the
  object the cache holds).
\<close>

definition lru_bump :: "string \<Rightarrow> 'v LRUCache \<Rightarrow> 'v LRUCache" where
  "lru_bump k c =
     c\<lparr>lru_items :=
         map (\<lambda>item. if fst item = k
                      then (fst item,
                            (fst (snd item))\<lparr>entry_hitCount := entry_hitCount (fst (snd item)) + 1\<rparr>,
                            snd (snd item))
                      else item) (lru_items c)\<rparr>"

record 'v MemoryCache =
  cache :: "'v LRUCache"
  hits :: nat
  misses :: nat
  sets :: nat
  deletes :: nat

record CacheStats =
  size :: nat
  maxSize :: nat
  hitRate :: real
  totalHits :: nat
  totalMisses :: nat
  totalSets :: nat
  totalDeletes :: nat

definition new_cache :: "nat \<Rightarrow> nat \<Rightarrow> bool \<Rightarrow> 'v MemoryCache" where
  "new_cache mx ttl updateAgeOnGet =
     \<lparr>cache = \<lparr>lru_items = [], lru_max = mx, lru_ttl = ttl, lru_updateAgeOnGet = updateAgeOnGet\<rparr>,
      hits = 0, misses = 0, sets = 0, deletes = 0\<rparr>"

text \<open>\<open>get\<close> and \<open>getWithMetadata\<close> count a hit or a miss; no other method does.\<close>

definition cache_getWithMetadata ::
  "nat \<Rightarrow> string \<Rightarrow> 'v MemoryCache \<Rightarrow> ('v \<times> nat \<times> nat) option \<times> 'v MemoryCache" where
  "cache_getWithMetadata now key m =
     (case lru_get now key (cache m) of
        (Some entry, c) \<Rightarrow>
          (Some (entry_value entry, entry_timestamp entry, entry_hitCount entry + 1),
           m\<lparr>cache := lru_bump key c, hits := hits m + 1\<rparr>)
      | (None, c) \<Rightarrow> (None, m\<lparr>cache := c, misses := misses m + 1\<rparr>))"

definition cache_get :: "nat \<Rightarrow> string \<Rightarrow> 'v MemoryCache \<Rightarrow> 'v option \<times> 'v MemoryCache" where
  "cache_get now key m =
     (case lru_get now key (cache m) of
        (Some entry, c) \<Rightarrow>
          (Some (entry_value entry), m\<lparr>cache := lru_bump key c, hits := hits m + 1\<rparr>)
      | (None, c) \<Rightarrow> (None, m\<lparr>cache := c, misses := misses m + 1\<rparr>))"

definition cache_set :: "nat \<Rightarrow> string \<Rightarrow> 'v \<Rightarrow> 'v MemoryCache \<Rightarrow> 'v MemoryCache" where
  "cache_set now key v m =
     m\<lparr>cache := lru_set now key \<lparr>entry_value = v, entry_timestamp = now, entry_hitCount = 0\<rparr>
                  (cache m),
       sets := sets m + 1\<rparr>"

definition cache_delete :: "string \<Rightarrow> 'v MemoryCache \<Rightarrow> bool \<times> 'v MemoryCache" where
  "cache_delete key m =
     (case lru_delete key (cache m) of
        (deleted, c) \<Rightarrow>
          (deleted, m\<lparr>cache := c, deletes := (if deleted then deletes m + 1 else deletes m)\<rparr>))"

definition cache_clear :: "'v MemoryCache \<Rightarrow> 'v MemoryCache" where
  "cache_clear m = m\<lparr>cache := (cache m)\<lparr>lru_items := []\<rparr>\<rparr>"

definition cache_prune :: "nat \<Rightarrow> 'v MemoryCache \<Rightarrow> nat \<times> 'v MemoryCache" where
  "cache_prune now m =
     (let c = lru_purgeStale now (cache m)
      in (length (lru_items (cache m)) - length (lru_items c), m\<lparr>cache := c\<rparr>))"

definition resetStats :: "'v MemoryCache \<Rightarrow> 'v MemoryCache" where
  "resetStats m = m\<lparr>hits := 0, misses := 0, sets := 0, deletes := 0\<rparr>"

definition warmUp :: "nat \<Rightarrow> (string \<times> 'v) list \<Rightarrow> 'v MemoryCache \<Rightarrow> 'v MemoryCache" where
  "warmUp now entries m = fold (\<lambda>kv. cache_set now (fst kv) (snd kv)) entries m"

text \<open>\<open>load\<close> stores the entries with their dumped timestamps and counts no set.\<close>

definition cache_load :: "nat \<Rightarrow> (string \<times> 'v \<times> nat) list \<Rightarrow> 'v MemoryCache \<Rightarrow> 'v MemoryCache" where
  "cache_load now dump m =
     m\<lparr>cache :=
         fold (\<lambda>kvt. lru_set now (fst kvt)
                       \<lparr>entry_value = fst (snd kvt), entry_timestamp = snd (snd kvt),
                        entry_hitCount = 0\<rparr>)
           dump (cache m)\<rparr>"

text \<open>
  \<open>getStats\<close>. The quotient of the two counters is computed on doubles in the source and
  on reals here.
\<close>

definition cache_getStats :: "'v MemoryCache \<Rightarrow> CacheStats" where
  "cache_getStats m =
     (let totalRequests = hits m + misses m;
          hitRate = (if 0 < totalRequests then real (hits m) / real totalRequests else 0)
      in \<lparr>size = length (lru_items (cache m)), maxSize = lru_max (cache m), hitRate = hitRate,
          totalHits = hits m, totalMisses = misses m, totalSets = sets m,
          totalDeletes = deletes m\<rparr>)"

text \<open>
  The methods that change the cache or its counters. \<open>has\<close>, \<open>peek\<close>, \<open>keys\<close>,
  \<open>values\<close>, \<open>entries\<close>, \<open>dump\<close>, \<open>getRemainingTTL\<close>, \<open>getTopHitEntries\<close> and
  \<open>getStats\<close> change neither; \<open>OpRead\<close> stands for a call of any of them.
\<close>

datatype 'v cache_op =
    OpGet string
  | OpGetWithMetadata string
  | OpSet string 'v
  | OpDelete string
  | OpClear
  | OpPrune
  | OpResetStats
  | OpWarmUp "(string \<times> 'v) list"
  | OpLoad "(string \<times> 'v \<times> nat) list"
  | OpRead

fun cache_apply :: "nat \<times> 'v cache_op \<Rightarrow> 'v MemoryCache \<Rightarrow> 'v MemoryCache" where
  "cache_apply (now, OpGet k) m = snd (cache_get now k m)"
| "cache_apply (now, OpGetWithMetadata k) m = snd (cache_getWithMetadata now k m)"
| "cache_apply (now, OpSet k v) m = cache_set now k v m"
| "cache_apply (now, OpDelete k) m = snd (cache_delete k m)"
| "cache_apply (now, OpClear) m = cache_clear m"
| "cache_apply (now, OpPrune) m = snd (cache_prune now m)"
| "cache_apply (now, OpResetStats) m = resetStats m"
| "cache_apply (now, OpWarmUp entries) m = warmUp now entries m"
| "cache_apply (now, OpLoad dump) m = cache_load now dump m"
| "cache_apply (now, OpRead) m = m"

definition run_cache :: "(nat \<times> 'v cache_op) list \<Rightarrow> 'v MemoryCache \<Rightarrow> 'v MemoryCache" where
  "run_cache ops m = fold cache_apply ops m"

fun is_request :: "'v cache_op \<Rightarrow> bool" where
  "is_request (OpGet k) = True"
| "is_request (OpGetWithMetadata k) = True"
| "is_request _ = False"

text \<open>The number of requests since the counters were last reset, starting from \<open>n\<close>.\<close>

fun count_request :: "nat \<times> 'v cache_op \<Rightarrow> nat \<Rightarrow> nat" where
  "count_request (now, OpResetStats) n = 0"
| "count_request (now, op) n = (if is_request op then n + 1 else n)"

section \<open>Row storage of project documents and references (creation)\<close>

record ProjectDoc =
  pdoc_id :: string
  pdoc_project_id :: string
  pdoc_title :: string
  pdoc_content :: string
  pdoc_file_path :: "string option"
  pdoc_embedding :: "Embedding option"
  pdoc_tags :: "string list"
  pdoc_metadata :: "string option"
  pdoc_created_at :: nat
  pdoc_updated_at :: nat

record Ref =
  ref_id :: string
  ref_name :: string
  ref_content :: string
  ref_embedding :: "Embedding option"
  ref_channel_id :: "string option"
  ref_metadata :: "string option"
  ref_created_at :: nat
  ref_updated_at :: nat

text \<open>
  \<open>create\<close> of the two other stores. The arguments of the \<open>INSERT\<close> include
  \<open>doc.file_path\<close> and \<open>ref.channel_id\<close> as they are: when the optional field is absent
  the argument is \<open>undefined\<close>, which the driver refuses with a \<open>TypeError\<close> before any
  statement runs.
\<close>

definition ProjectDocStorage_create ::
  "nat \<Rightarrow> ProjectDoc \<Rightarrow> db \<Rightarrow> (error + ProjectDoc) \<times> db" where
  "ProjectDocStorage_create now doc d =
     (if pdoc_file_path doc = None then (Inl TypeError, d)
      else case exec_insert ''project_docs''
             \<lparr>row_id = pdoc_id doc, row_content = pdoc_content doc, row_embedding = None,
              row_metadata = pdoc_metadata doc, row_created_at = now, row_updated_at = now,
              row_cols = DocCols (pdoc_project_id doc) (pdoc_title doc) (pdoc_file_path doc)
                           (pdoc_tags doc)\<rparr> d of
        (Inl e, d') \<Rightarrow> (Inl e, d')
      | (Inr _, d') \<Rightarrow> (Inr (doc\<lparr>pdoc_created_at := now, pdoc_updated_at := now\<rparr>), d'))"

definition RefStorage_create :: "nat \<Rightarrow> Ref \<Rightarrow> db \<Rightarrow> (error + Ref) \<times> db" where
  "RefStorage_create now ref d =
     (if ref_channel_id ref = None then (Inl TypeError, d)
      else case exec_insert ''refs''
             \<lparr>row_id = ref_id ref, row_content = ref_content ref, row_embedding = None,
              row_metadata = ref_metadata ref, row_created_at = now, row_updated_at = now,
              row_cols = RefCols (ref_name ref) (ref_channel_id ref)\<rparr> d of
        (Inl e, d') \<Rightarrow> (Inl e, d')
      | (Inr _, d') \<Rightarrow> (Inr (ref\<lparr>ref_created_at := now, ref_updated_at := now\<rparr>), d'))"

section \<open>The memory service (\<open>MemoryService\<close>)\<close>

text \<open>
  The service holds the database, the cache and the flag \<open>isInitialized\<close>. Every public
  operation first runs \<open>ensureInitialized\<close> and then \<open>pool.withConnection\<close>;
  \<open>checkout\<close> is the outcome of that \<open>getConnection\<close> (\<open>None\<close>: a connection was
  handed out), and the pool itself is modelled above. \<open>now\<close> is the clock reading of the
  storage layer \<open>nowc\<close> that of the cache, and \<open>ts\<close> the engine's timestamp for the
  triggers of the \<open>UPDATE\<close> statements of the call.
\<close>

datatype cached =
    CachedRule Rule
  | CachedProjectDoc ProjectDoc
  | CachedRef Ref
  | CachedSearch "SearchResult list"

record service =
  svc_db :: db
  svc_cache :: "cached MemoryCache"
  isInitialized :: bool
  svc_vectorDimensions :: nat

text \<open>\<open>if (x.embedding) await vectorIndex.storeEmbedding(table, id, x.embedding)\<close>.\<close>

definition store_if_given ::
  "(jsnum \<Rightarrow> 32 word) \<Rightarrow> nat \<Rightarrow> nat \<Rightarrow> string \<Rightarrow> string \<Rightarrow> Embedding option \<Rightarrow> db \<Rightarrow> (error + unit) \<times> db" where
  "store_if_given enc dims ts table i embedding d =
     (case embedding of
        None \<Rightarrow> (Inr (), d)
      | Some e \<Rightarrow> storeEmbedding enc dims ts table i e d)"

definition createRule ::
  "(jsnum \<Rightarrow> 32 word) \<Rightarrow> nat \<Rightarrow> nat \<Rightarrow> nat \<Rightarrow> error option \<Rightarrow> Rule \<Rightarrow> service \<Rightarrow> (error + Rule) \<times> service" where
  "createRule enc now ts nowc checkout rule s =
     (if \<not> isInitialized s then (Inl NotInitialized, s)
      else case checkout of
        Some e \<Rightarrow> (Inl e, s)
      | None \<Rightarrow>
          (case RuleStorage_create now rule (svc_db s) of
             (Inl e, d) \<Rightarrow> (Inl e, s\<lparr>svc_db := d\<rparr>)
           | (Inr created, d) \<Rightarrow>
               (case store_if_given enc (svc_vectorDimensions s) ts ''rules'' (rule_id rule)
                       (rule_embedding rule) d of
                  (Inl e, d') \<Rightarrow> (Inl e, s\<lparr>svc_db := d'\<rparr>)
                | (Inr _, d') \<Rightarrow>
                    (Inr created,
                     s\<lparr>svc_db := d',
                       svc_cache := cache_set nowc (''rule:'' @ rule_id rule) (CachedRule created)
                                      (svc_cache s)\<rparr>))))"

definition updateRule ::
  "(jsnum \<Rightarrow> 32 word) \<Rightarrow> nat \<Rightarrow> nat \<Rightarrow> nat \<Rightarrow> error option \<Rightarrow> string \<Rightarrow> RuleUpdates \<Rightarrow> service
     \<Rightarrow> (error + Rule option) \<times> service" where
  "updateRule enc now ts nowc checkout i updates s =
     (if \<not> isInitialized s then (Inl NotInitialized, s)
      else case checkout of
        Some e \<Rightarrow> (Inl e, s)
      | None \<Rightarrow>
          (case RuleStorage_update now ts i updates (svc_db s) of
             (Inl e, d) \<Rightarrow> (Inl e, s\<lparr>svc_db := d\<rparr>)
           | (Inr None, d) \<Rightarrow> (Inr None, s\<lparr>svc_db := d\<rparr>)
           | (Inr (Some updated), d) \<Rightarrow>
               (case store_if_given enc (svc_vectorDimensions s) ts ''rules'' i
                       (upd_embedding updates) d of
                  (Inl e, d') \<Rightarrow> (Inl e, s\<lparr>svc_db := d'\<rparr>)
                | (Inr _, d') \<Rightarrow>
                    (Inr (Some updated),
                     s\<lparr>svc_db := d',
                       svc_cache := cache_set nowc (''rule:'' @ i) (CachedRule updated)
                                      (svc_cache s)\<rparr>))))"

definition deleteRule :: "error option \<Rightarrow> string \<Rightarrow> service \<Rightarrow> (error + bool) \<times> service" where
  "deleteRule checkout i s =
     (if \<not> isInitialized s then (Inl NotInitialized, s)
      else case checkout of
        Some e \<Rightarrow> (Inl e, s)
      | None \<Rightarrow>
          (case RuleStorage_delete i (svc_db s) of
             (Inl e, d) \<Rightarrow> (Inl e, s\<lparr>svc_db := d\<rparr>)
           | (Inr deleted, d) \<Rightarrow>
               (Inr deleted,
                s\<lparr>svc_db := d,
                  svc_cache := (if deleted then snd (cache_delete (''rule:'' @ i) (svc_cache s))
                                else svc_cache s)\<rparr>)))"

definition createProjectDoc ::
  "(jsnum \<Rightarrow> 32 word) \<Rightarrow> nat \<Rightarrow> nat \<Rightarrow> nat \<Rightarrow> error option \<Rightarrow> ProjectDoc \<Rightarrow> service
     \<Rightarrow> (error + ProjectDoc) \<times> service" where
  "createProjectDoc enc now ts nowc checkout doc s =
     (if \<not> isInitialized s then (Inl NotInitialized, s)
      else case checkout of
        Some e \<Rightarrow> (Inl e, s)
      | None \<Rightarrow>
          (case ProjectDocStorage_create now doc (svc_db s) of
             (Inl e, d) \<Rightarrow> (Inl e, s\<lparr>svc_db := d\<rparr>)
           | (Inr created, d) \<Rightarrow>
               (case store_if_given enc (svc_vectorDimensions s) ts ''project_docs'' (pdoc_id doc)
                       (pdoc_embedding doc) d of
                  (Inl e, d') \<Rightarrow> (Inl e, s\<lparr>svc_db := d'\<rparr>)
                | (Inr _, d') \<Rightarrow>
                    (Inr created,
                     s\<lparr>svc_db := d',
                       svc_cache := cache_set nowc (''project_doc:'' @ pdoc_id doc)
                                      (CachedProjectDoc created) (svc_cache s)\<rparr>))))"

definition createRef ::
  "(jsnum \<Rightarrow> 32 word) \<Rightarrow> nat \<Rightarrow> nat \<Rightarrow> nat \<Rightarrow> error option \<Rightarrow> Ref \<Rightarrow> service \<Rightarrow> (error + Ref) \<times> service" where
  "createRef enc now ts nowc checkout ref s =
     (if \<not> isInitialized s then (Inl NotInitialized, s)
      else case checkout of
        Some e \<Rightarrow> (Inl e, s)
      | None \<Rightarrow>
          (case RefStorage_create now ref (svc_db s) of
             (Inl e, d) \<Rightarrow> (Inl e, s\<lparr>svc_db := d\<rparr>)
           | (Inr created, d) \<Rightarrow>
               (case store_if_given enc (svc_vectorDimensions s) ts ''refs'' (ref_id ref)
                       (ref_embedding ref) d of
                  (Inl e, d') \<Rightarrow> (Inl e, s\<lparr>svc_db := d'\<rparr>)
                | (Inr _, d') \<Rightarrow>
                    (Inr created,
                     s\<lparr>svc_db := d',
                       svc_cache :=
                         cache_set nowc (''ref:name:'' @ ref_name ref) (CachedRef created)
                           (cache_set nowc (''ref:'' @ ref_id ref) (CachedRef created)
                              (svc_cache s))\<rparr>))))"

text \<open>
  \<open>batchStoreEmbeddings\<close> of the service: after the index has stored the batch, the
  cache entry \<open>`${doc.table.slice(0, -1)}:${doc.id}`\<close> of every document is deleted.
\<close>

definition batch_key :: "EmbeddingDoc \<Rightarrow> string" where
  "batch_key doc = butlast (doc_table doc) @ '':'' @ doc_id doc"

definition service_batchStoreEmbeddings ::
  "(jsnum \<Rightarrow> 32 word) \<Rightarrow> nat \<Rightarrow> error option \<Rightarrow> EmbeddingDoc list \<Rightarrow> service \<Rightarrow> (error + unit) \<times> service" where
  "service_batchStoreEmbeddings enc ts checkout documents s =
     (if \<not> isInitialized s then (Inl NotInitialized, s)
      else case checkout of
        Some e \<Rightarrow> (Inl e, s)
      | None \<Rightarrow>
          (case batchStoreEmbeddings enc (svc_vectorDimensions s) ts documents (svc_db s) of
             (Inl e, d) \<Rightarrow> (Inl e, s\<lparr>svc_db := d\<rparr>)
           | (Inr _, d) \<Rightarrow>
               (Inr (),
                s\<lparr>svc_db := d,
                  svc_cache := fold (\<lambda>doc m. snd (cache_delete (batch_key doc) m)) documents
                                 (svc_cache s)\<rparr>)))"

text \<open>
  \<open>semanticSearch\<close> of the service. The key is \<open>search:\<close> followed by
  \<open>JSON.stringify\<close> of the first five numbers of the query and the options;
  \<open>stringify\<close> is that function. A cached value (an array, truthy also when empty) is
  returned as it is. \<open>options.limit || 10\<close> takes the default for a falsy limit.
\<close>

record QueryOptions =
  q_limit :: "jsnum option"
  q_threshold :: "jsnum option"
  q_project_id :: "string option"
  q_channel_id :: "string option"
  q_tags :: "string list option"
  q_tier :: "jsnum option"

definition or_default :: "jsnum option \<Rightarrow> jsnum \<Rightarrow> jsnum" where
  "or_default x d =
     (case x of None \<Rightarrow> d | Some v \<Rightarrow> if v = Num 0 \<or> v = NaN then d else v)"

definition search_key :: "(Embedding \<Rightarrow> QueryOptions \<Rightarrow> string) \<Rightarrow> Embedding \<Rightarrow> QueryOptions \<Rightarrow> string" where
  "search_key stringify queryEmbedding options = ''search:'' @ stringify (take 5 queryEmbedding) options"

definition service_semanticSearch ::
  "arith \<Rightarrow> (Embedding \<Rightarrow> QueryOptions \<Rightarrow> string) \<Rightarrow> (string \<Rightarrow> string option) \<Rightarrow> (32 word \<Rightarrow> jsnum) \<Rightarrow> nat
     \<Rightarrow> error option \<Rightarrow> Embedding \<Rightarrow> QueryOptions \<Rightarrow> service \<Rightarrow> (error + cached) \<times> service" where
  "service_semanticSearch ar stringify parse dec nowc checkout queryEmbedding options s =
     (if \<not> isInitialized s then (Inl NotInitialized, s)
      else (let cacheKey = search_key stringify queryEmbedding options
            in case cache_get nowc cacheKey (svc_cache s) of
                 (Some hit, m) \<Rightarrow> (Inr hit, s\<lparr>svc_cache := m\<rparr>)
               | (None, m) \<Rightarrow>
                   (case checkout of
                      Some e \<Rightarrow> (Inl e, s\<lparr>svc_cache := m\<rparr>)
                    | None \<Rightarrow>
                        (case semanticSearch ar parse dec (svc_vectorDimensions s) queryEmbedding
                                \<lparr>opt_limit = Some (or_default (q_limit options) (Num 10)),
                                 opt_threshold = Some (or_default (q_threshold options) (Num (7 / 10))),
                                 opt_includeMetadata = Some True\<rparr> (svc_db s) of
                           Inl e \<Rightarrow> (Inl e, s\<lparr>svc_cache := m\<rparr>)
                         | Inr results \<Rightarrow>
                             (Inr (CachedSearch results),
                              s\<lparr>svc_cache := cache_set nowc cacheKey (CachedSearch results) m\<rparr>)))))"

text \<open>The row mutations of the service, and the state each leaves.\<close>

datatype mutation =
    CreateRule Rule
  | UpdateRule string RuleUpdates
  | DeleteRule string
  | CreateProjectDoc ProjectDoc
  | CreateRef Ref
  | BatchStoreEmbeddings "EmbeddingDoc list"

fun after_mutation ::
  "(jsnum \<Rightarrow> 32 word) \<Rightarrow> nat \<Rightarrow> nat \<Rightarrow> nat \<Rightarrow> error option \<Rightarrow> mutation \<Rightarrow> service \<Rightarrow> service" where
  "after_mutation enc now ts nowc checkout (CreateRule rule) s =
     snd (createRule enc now ts nowc checkout rule s)"
| "after_mutation enc now ts nowc checkout (UpdateRule i updates) s =
     snd (updateRule enc now ts nowc checkout i updates s)"
| "after_mutation enc now ts nowc checkout (DeleteRule i) s = snd (deleteRule checkout i s)"
| "after_mutation enc now ts nowc checkout (CreateProjectDoc doc) s =
     snd (createProjectDoc enc now ts nowc checkout doc s)"
| "after_mutation enc now ts nowc checkout (CreateRef ref) s =
     snd (createRef enc now ts nowc checkout ref s)"
| "after_mutation enc now ts nowc checkout (BatchStoreEmbeddings documents) s =
     snd (service_batchStoreEmbeddings enc ts checkout documents s)"

text \<open>The item the cache holds under a key: the entry and the start of its age.\<close>

definition cache_entry :: "'v MemoryCache \<Rightarrow> string \<Rightarrow> ('v CacheEntry \<times> nat) option" where
  "cache_entry m k = map_of (lru_items (cache m)) k"

text \<open>
  The eviction of \<open>lru-cache\<close>, as \<open>lru_set\<close> has it: storing under a key \<open>k'\<close> that
  the cache does not hold, into a cache that is full, removes the least recently used
  item. \<open>evicts k' m k\<close> says that this item is the one under \<open>k\<close>.
\<close>

definition evicts :: "string \<Rightarrow> 'v MemoryCache \<Rightarrow> string \<Rightarrow> bool" where
  "evicts k' m k =
     (k' \<notin> set (map fst (lru_items (cache m)))
      \<and> lru_max (cache m) \<noteq> 0 \<and> lru_max (cache m) \<le> length (lru_items (cache m))
      \<and> k \<in> set (map fst (lru_items (cache m)))
      \<and> k \<notin> set (map fst (butlast (lru_items (cache m)))))"

text \<open>
  Concrete values for the examples: a database with the three empty row tables and the
  three triggers of the schema.
\<close>

definition schema_triggers :: "(string \<times> string) set" where
  "schema_triggers =
     {(''update_rules_timestamp'', ''rules''),
      (''update_project_docs_timestamp'', ''project_docs''),
      (''update_refs_timestamp'', ''refs'')}"

definition example_db :: db where
  "example_db =
     \<lparr>data = \<lparr>tables = [''rules'' \<mapsto> [], ''project_docs'' \<mapsto> [], ''refs'' \<mapsto> []],
              migration_rows = Some [(1, ''Initial schema'')], indexes = {},
              triggers = schema_triggers\<rparr>,
      snapshot = None\<rparr>"

definition example_rule :: Rule where
  "example_rule =
     \<lparr>rule_id = ''r1'', rule_content = ''Always validate input'', rule_embedding = None,
      rule_tags = [''sec'', ''validate''], rule_tier = 1, rule_metadata = None,
      rule_created_at = 0, rule_updated_at = 0\<rparr>"

definition tier_update :: "int \<Rightarrow> RuleUpdates" where
  "tier_update t =
     \<lparr>upd_id = None, upd_content = None, upd_embedding = None, upd_tags = None,
      upd_tier = Some t, upd_metadata = None, upd_created_at = None, upd_updated_at = None\<rparr>"

definition example_enc :: "jsnum \<Rightarrow> 32 word" where
  "example_enc x = (case x of Num r \<Rightarrow> word_of_int \<lfloor>r\<rfloor> | _ \<Rightarrow> 0)"

text \<open>
  The number a binary32 word stands for, which is what \<open>readFloatLE\<close> returns (the
  conversion to a double is exact): one sign bit, eight bits of exponent, 23 bits of
  fraction. The model of numbers has one zero, so \<open>-0\<close> is read as \<open>0\<close>.
\<close>

definition binary32_value :: "32 word \<Rightarrow> jsnum" where
  "binary32_value w =
     (let n = unat w;
          negative = (2 ^ 31 \<le> n);
          e = (n div 2 ^ 23) mod 256;
          m = n mod 2 ^ 23;
          mag = (if e = 0 then real m / 2 ^ 149
                 else if 127 \<le> e then (1 + real m / 2 ^ 23) * 2 ^ (e - 127)
                 else (1 + real m / 2 ^ 23) / 2 ^ (127 - e))
      in if e = 255 then (if m \<noteq> 0 then NaN else if negative then NInf else PInf)
         else Num (if negative then - mag else mag))"

text \<open>The bytes of the binary32 numbers \<open>1\<close> and \<open>0\<close>, little-endian.\<close>

definition f32_one :: Buffer where
  "f32_one = [0, 0, 128, 63]"

definition f32_zero :: Buffer where
  "f32_zero = [0, 0, 0, 0]"

definition example_parse :: "string \<Rightarrow> string option" where
  "example_parse s = (if s = ''{}'' then Some s else None)"

definition example_row :: "string \<Rightarrow> Buffer option \<Rightarrow> cols \<Rightarrow> row" where
  "example_row i e c =
     \<lparr>row_id = i, row_content = ''text of '' @ i, row_embedding = e, row_metadata = None,
      row_created_at = 1000, row_updated_at = 1000, row_cols = c\<rparr>"

definition example_corpus :: db where
  "example_corpus =
     \<lparr>data = \<lparr>tables =
               [''rules'' \<mapsto>
                  [example_row ''r1'' (Some (f32_one @ f32_zero @ f32_zero @ f32_zero))
                     (RuleCols [] 1),
                   example_row ''r2'' None (RuleCols [] 2)],
                ''project_docs'' \<mapsto>
                  [example_row ''d1'' (Some (f32_one @ f32_one @ f32_one @ f32_one))
                     (DocCols ''p'' ''t'' None [])],
                ''refs'' \<mapsto>
                  [example_row ''f1'' (Some (f32_one @ f32_zero @ f32_zero @ f32_zero))
                     (RefCols ''n'' None)]],
              migration_rows = Some [(1, ''Initial schema'')], indexes = {},
              triggers = schema_triggers\<rparr>,
      snapshot = None\<rparr>"

definition example_result :: "string \<Rightarrow> result_type \<Rightarrow> jsnum \<Rightarrow> SearchResult" where
  "example_result i ty score =
     \<lparr>sr_id = i, sr_content = ''text of '' @ i, similarity_score = score, sr_type = ty,
      sr_metadata = None\<rparr>"

definition example_service :: service where
  "example_service =
     \<lparr>svc_db = example_db,
      svc_cache = cache_set 5 ''search:q'' (CachedSearch []) (new_cache 10 100000 True),
      isInitialized = True, svc_vectorDimensions = 2\<rparr>"

text \<open>
  The same service on a database that holds a fourth row table, \<open>searchs\<close>, and the
  same service with a cache of one slot, which the cached search fills.
\<close>

definition foreign_service :: service where
  "foreign_service =
     example_service
       \<lparr>svc_db := set_table ''searchs'' [] example_db\<rparr>"

definition crowded_service :: service where
  "crowded_service =
     \<lparr>svc_db = example_db,
      svc_cache = cache_set 5 ''search:q'' (CachedSearch []) (new_cache 1 100000 True),
      isInitialized = True, svc_vectorDimensions = 2\<rparr>"

section \<open>Properties of the vector codec\<close>

lemma le_word_writeFloatLE:
  "le_word (ucast w) (ucast (drop_bit 8 w)) (ucast (drop_bit 16 w)) (ucast (drop_bit 24 w))
     = (w :: 32 word)"
  unfolding le_word_def
proof (rule bit_word_eqI)
  fix n :: nat
  assume "n < LENGTH(32)"
  then have n: "n < 32" by simp
  consider "n < 8" | "8 \<le> n" "n < 16" | "16 \<le> n" "n < 24" | "24 \<le> n"
    by linarith
  then show "bit (ucast (ucast w :: byte) OR push_bit 8 (ucast (ucast (drop_bit 8 w) :: byte))
                  OR push_bit 16 (ucast (ucast (drop_bit 16 w) :: byte))
                  OR push_bit 24 (ucast (ucast (drop_bit 24 w) :: byte)) :: 32 word) n
             = bit w n"
    using n by cases (auto simp: bit_simps)
qed

lemma length_writeFloatLE: "length (writeFloatLE enc x) = 4"
  by (simp add: writeFloatLE_def Let_def)

lemma length_serializeEmbedding: "length (serializeEmbedding enc v) = 4 * length v"
  by (induction v) (simp_all add: length_writeFloatLE)

lemma readFloatLE_serialized:
  assumes "length pre = 4 * i"
  shows "readFloatLE dec (pre @ writeFloatLE enc x @ post) (i * 4) = Inr (dec (enc x))"
proof -
  have len: "i * 4 + 4 \<le> length (pre @ writeFloatLE enc x @ post)"
    using assms by (simp add: length_writeFloatLE)
  have nth: "(pre @ writeFloatLE enc x @ post) ! (i * 4 + k) = writeFloatLE enc x ! k"
    if "k < 4" for k
    using assms that by (simp add: nth_append length_writeFloatLE mult.commute)
  have n0: "(pre @ writeFloatLE enc x @ post) ! (i * 4) = writeFloatLE enc x ! 0"
    using nth [of 0] by simp
  show ?thesis
    using len n0 nth [of 1] nth [of 2] nth [of 3]
    by (simp add: readFloatLE_def writeFloatLE_def Let_def le_word_writeFloatLE)
qed

lemma deserialize_loop_serialized:
  assumes "length pre = 4 * i"
  shows "deserialize_loop dec (pre @ serializeEmbedding enc v) i acc
           = Inr (acc @ map (\<lambda>x. dec (enc x)) v)"
  using assms
proof (induction v arbitrary: pre i acc)
  case Nil
  then show ?case by (simp add: deserialize_loop.simps)
next
  case (Cons x xs)
  have rd: "readFloatLE dec (pre @ writeFloatLE enc x @ serializeEmbedding enc xs) (i * 4)
              = Inr (dec (enc x))"
    using Cons.prems by (rule readFloatLE_serialized)
  have lt: "4 * i < length (pre @ writeFloatLE enc x @ serializeEmbedding enc xs)"
    using Cons.prems by (simp add: length_writeFloatLE)
  have step: "deserialize_loop dec ((pre @ writeFloatLE enc x) @ serializeEmbedding enc xs)
                (i + 1) (acc @ [dec (enc x)])
              = Inr ((acc @ [dec (enc x)]) @ map (\<lambda>x. dec (enc x)) xs)"
    by (rule Cons.IH) (simp add: Cons.prems length_writeFloatLE)
  show ?case
    using lt rd step
    by (subst deserialize_loop.simps) simp
qed

text \<open>
  C7. Deserializing a serialized vector gives a vector of the same length whose elements
  are those of the input rounded to binary32 (each element is \<open>dec (enc x)\<close>, the double
  of the binary32 nearest to \<open>x\<close>), and the serialized buffer has four bytes per element.
\<close>

theorem serialize_deserialize_roundtrip:
  "deserializeEmbedding dec (serializeEmbedding enc v) = Inr (map (\<lambda>x. dec (enc x)) v)
   \<and> length (map (\<lambda>x. dec (enc x)) v) = length v
   \<and> length (serializeEmbedding enc v) = 4 * length v"
  using deserialize_loop_serialized [of "[]" 0 dec enc v "[]"]
  by (simp add: deserializeEmbedding_def length_serializeEmbedding)

section \<open>Properties of cosine similarity\<close>

lemma cosine_fold_norms:
  assumes "length a = length b"
  shows "foldl (cosine_step ar) (d, na, nb) (zip a b)
           = (foldl (\<lambda>s xy. ar_add ar s (ar_mul ar (fst xy) (snd xy))) d (zip a b),
              foldl (\<lambda>sum value. ar_add ar sum (ar_mul ar value value)) na a,
              foldl (\<lambda>sum value. ar_add ar sum (ar_mul ar value value)) nb b)"
  using assms
  by (induction a b arbitrary: d na nb rule: list_induct2) (simp_all add: cosine_step_def)

text \<open>
  C8. For vectors of equal length, when the norm of one of them is zero the similarity is
  the number zero: the test on the two norms comes before the division, and the result is
  the finite value \<open>0\<close>, not \<open>NaN\<close>. This holds whatever the rounding of the
  arithmetic \<open>ar\<close>, the norm being the one the code computes.
\<close>

theorem cosineSimilarity_zero_norm:
  assumes "length a = length b"
    and "magnitude ar a = Num 0 \<or> magnitude ar b = Num 0"
  shows "cosineSimilarity ar a b = Inr (Num 0) \<and> cosineSimilarity ar a b \<noteq> Inr NaN"
  using assms
  by (auto simp: cosineSimilarity_def magnitude_def cosine_fold_norms Let_def)

theorem cosineSimilarity_zero_norm_witness:
  "length [Num 0, Num 0] = length [Num 3, Num 4]
   \<and> magnitude exact_arith [Num 0, Num 0] = Num 0
   \<and> cosineSimilarity exact_arith [Num 0, Num 0] [Num 3, Num 4] = Inr (Num 0)"
proof -
  have m: "magnitude exact_arith [Num 0, Num 0] = Num 0"
    by (simp add: magnitude_def exact_arith_def)
  have l: "length [Num 0, Num 0] = length [Num 3, Num 4]"
    by simp
  show ?thesis
    using cosineSimilarity_zero_norm [OF l disjI1 [OF m]] m by simp
qed

text \<open>Without the test the same input would divide zero by zero.\<close>

lemma zero_over_zero_is_NaN:
  "js_div (Num 0)
     (js_mul (magnitude exact_arith [Num 0, Num 0]) (magnitude exact_arith [Num 3, Num 4])) = NaN"
  by (simp add: magnitude_def exact_arith_def)

section \<open>Table names\<close>

lemma table_key_schema:
  "table_key ''rules'' = ''rules''"
  "table_key ''project_docs'' = ''project_docs''"
  "table_key ''refs'' = ''refs''"
  "table_key ''RULES'' = ''rules''"
  "table_key ''embeddings'' = ''embeddings''"
  by (simp_all add: table_key_def lower_char_def)

lemma has_trigger_example:
  "triggers (data d) = schema_triggers \<Longrightarrow> has_trigger ''rules'' d"
  "triggers (data d) = schema_triggers \<Longrightarrow> has_trigger ''project_docs'' d"
  "triggers (data d) = schema_triggers \<Longrightarrow> has_trigger ''refs'' d"
  by (simp_all add: has_trigger_def table_key_schema schema_triggers_def)

section \<open>Timestamps of create and update\<close>

lemma RuleStorage_create_result:
  assumes "RuleStorage_create now rule d = (Inr created, d')"
  shows "created = rule\<lparr>rule_created_at := now, rule_updated_at := now\<rparr>"
  using assms
  by (auto simp: RuleStorage_create_def split: prod.splits sum.splits)

lemma RuleStorage_update_result:
  assumes "RuleStorage_update now ts i updates d = (Inr (Some updated), d')"
  shows "\<exists>existing. RuleStorage_findById i d = Inr (Some existing)
           \<and> updated = merge_rule existing updates now"
  using assms
  by (auto simp: RuleStorage_update_def Let_def split: prod.splits sum.splits option.splits)

text \<open>
  \<open>create\<close> returns a record whose two timestamps are the clock reading of the call, and
  a successful \<open>update\<close> returns one whose \<open>updated_at\<close> is the clock reading of the
  call, whatever \<open>updates\<close> holds.
\<close>

lemma create_timestamps_equal:
  assumes "fst (RuleStorage_create now rule d) = Inr created"
  shows "rule_created_at created = now \<and> rule_updated_at created = now"
proof -
  from assms have "RuleStorage_create now rule d = (Inr created, snd (RuleStorage_create now rule d))"
    by (metis prod.collapse)
  then have "created = rule\<lparr>rule_created_at := now, rule_updated_at := now\<rparr>"
    by (rule RuleStorage_create_result)
  then show ?thesis by simp
qed

lemma update_sets_clock_reading:
  assumes "fst (RuleStorage_update now ts i updates d) = Inr (Some updated)"
  shows "rule_updated_at updated = now"
proof -
  from assms have "RuleStorage_update now ts i updates d
                     = (Inr (Some updated), snd (RuleStorage_update now ts i updates d))"
    by (metis prod.collapse)
  from RuleStorage_update_result [OF this] show ?thesis
    by (auto simp: merge_rule_def)
qed

lemma example_create:
  "RuleStorage_create 1000 example_rule example_db
     = (Inr (example_rule\<lparr>rule_created_at := 1000, rule_updated_at := 1000\<rparr>),
        set_table ''rules''
          [\<lparr>row_id = ''r1'', row_content = ''Always validate input'', row_embedding = None,
            row_metadata = None, row_created_at = 1000, row_updated_at = 1000,
            row_cols = RuleCols [''sec'', ''validate''] 1\<rparr>] example_db)"
  by (simp add: RuleStorage_create_def exec_insert_def find_table_def table_key_schema
      example_db_def example_rule_def check_constraints_def)

lemma example_find:
  "RuleStorage_findById ''r1'' (snd (RuleStorage_create 1000 example_rule example_db))
     = Inr (Some (example_rule\<lparr>rule_created_at := 1000, rule_updated_at := 1000\<rparr>))"
  apply (simp only: example_create snd_conv)
  apply (simp add: RuleStorage_findById_def exec_select_by_id_def find_table_def set_table_def
      table_key_schema rule_of_row_def deserializeMetadata_def example_rule_def)
  done

lemma example_update:
  "RuleStorage_update n ts ''r1'' (tier_update 2)
     (snd (RuleStorage_create 1000 example_rule example_db))
     = (Inr (Some (example_rule\<lparr>rule_tier := 2, rule_created_at := 1000, rule_updated_at := n\<rparr>)),
        set_table ''rules''
          [\<lparr>row_id = ''r1'', row_content = ''Always validate input'', row_embedding = None,
            row_metadata = None, row_created_at = 1000, row_updated_at = ts,
            row_cols = RuleCols [''sec'', ''validate''] 2\<rparr>] example_db)"
  apply (simp add: RuleStorage_update_def example_find Let_def)
  apply (simp only: example_create snd_conv)
  apply (simp add: exec_update_by_id_def find_table_def set_table_def table_key_schema
      fire_trigger_def has_trigger_def schema_triggers_def merge_rule_def tier_update_def
      example_rule_def example_db_def check_constraints_def)
  done

text \<open>
  C2 holds for \<open>create\<close> and fails for \<open>update\<close> on the code when the clock has not
  advanced. A rule is created at the clock reading 1000, so that its \<open>created_at\<close> and
  its \<open>updated_at\<close> are both 1000, and it is updated at the same reading: the record
  that \<open>update\<close> returns has \<open>updated_at\<close> 1000 again, which is not greater than the
  prior \<open>updated_at\<close> nor than \<open>created_at\<close>. The row keeps the engine's timestamp that
  the trigger wrote.
\<close>

theorem update_at_same_clock_reading:
  "fst (RuleStorage_create 1000 example_rule example_db)
     = Inr (example_rule\<lparr>rule_created_at := 1000, rule_updated_at := 1000\<rparr>)
   \<and> RuleStorage_findById ''r1'' (snd (RuleStorage_create 1000 example_rule example_db))
     = Inr (Some (example_rule\<lparr>rule_created_at := 1000, rule_updated_at := 1000\<rparr>))
   \<and> fst (RuleStorage_update 1000 1000 ''r1'' (tier_update 2)
             (snd (RuleStorage_create 1000 example_rule example_db)))
     = Inr (Some (example_rule\<lparr>rule_tier := 2, rule_created_at := 1000, rule_updated_at := 1000\<rparr>))
   \<and> \<not> rule_updated_at (example_rule\<lparr>rule_created_at := 1000, rule_updated_at := 1000\<rparr>)
       < rule_updated_at
           (example_rule\<lparr>rule_tier := 2, rule_created_at := 1000, rule_updated_at := 1000\<rparr>)
   \<and> \<not> rule_created_at
           (example_rule\<lparr>rule_tier := 2, rule_created_at := 1000, rule_updated_at := 1000\<rparr>)
       < rule_updated_at
           (example_rule\<lparr>rule_tier := 2, rule_created_at := 1000, rule_updated_at := 1000\<rparr>)"
  using example_create example_find example_update [of 1000 1000] by simp

section \<open>Storing an embedding\<close>

lemma exec_update_by_id_never_UnknownTable:
  "fst (exec_update_by_id ts t i f d) \<noteq> Inl (UnknownTable u)"
  by (simp add: exec_update_by_id_def no_such_table_def split: option.splits)

text \<open>
  C1, as the code has it. \<open>storeEmbedding\<close> compares the table name with nothing. For
  every table name: a vector of the wrong length fails with \<open>DimensionMismatch\<close> and
  leaves the database as it is; a vector of the configured length is serialized and the
  \<open>UPDATE\<close> is issued against the table of that name, so that a name the database does
  not know gives the engine's error, and a name it knows sets the embedding of the rows
  with the id (whose \<open>updated_at\<close> the trigger of the table, if there is one, sets to the
  engine's timestamp) and changes no other row. The error \<open>UnknownTable\<close> is never the
  result.
\<close>

theorem storeEmbedding_any_table:
  "(length v \<noteq> dims
      \<longrightarrow> storeEmbedding enc dims ts table i v d = (Inl (DimensionMismatch (length v) dims), d))
   \<and> (length v = dims \<and> find_table table d = None
      \<longrightarrow> storeEmbedding enc dims ts table i v d = (Inl (no_such_table table), d))
   \<and> (length v = dims \<and> find_table table d = Some rows \<and> list_all check_constraints rows
      \<longrightarrow> storeEmbedding enc dims ts table i v d
            = (Inr (),
               set_table table
                 (map (\<lambda>r. if row_id r = i
                            then (if has_trigger table d
                                  then r\<lparr>row_embedding := Some (serializeEmbedding enc v),
                                         row_updated_at := ts\<rparr>
                                  else r\<lparr>row_embedding := Some (serializeEmbedding enc v)\<rparr>)
                            else r) rows)
                 d))
   \<and> fst (storeEmbedding enc dims ts table i v d) \<noteq> Inl (UnknownTable u)"
proof (intro conjI impI)
  show "storeEmbedding enc dims ts table i v d = (Inl (DimensionMismatch (length v) dims), d)"
    if "length v \<noteq> dims"
    using that by (simp add: storeEmbedding_def validateDimensions_def)
  show "storeEmbedding enc dims ts table i v d = (Inl (no_such_table table), d)"
    if "length v = dims \<and> find_table table d = None"
    using that by (simp add: storeEmbedding_def validateDimensions_def exec_update_by_id_def)
  show "storeEmbedding enc dims ts table i v d
          = (Inr (),
             set_table table
               (map (\<lambda>r. if row_id r = i
                          then (if has_trigger table d
                                then r\<lparr>row_embedding := Some (serializeEmbedding enc v),
                                       row_updated_at := ts\<rparr>
                                else r\<lparr>row_embedding := Some (serializeEmbedding enc v)\<rparr>)
                          else r) rows)
               d)"
    if h: "length v = dims \<and> find_table table d = Some rows \<and> list_all check_constraints rows"
  proof -
    have "\<not> list_ex (\<lambda>r. row_id r = i
              \<and> \<not> check_constraints (r\<lparr>row_embedding := Some (serializeEmbedding enc v)\<rparr>)) rows"
      using h by (auto simp: list_ex_iff list_all_iff check_constraints_def)
    moreover have "(\<lambda>r. if row_id r = i
                         then fire_trigger ts table d
                                (r\<lparr>row_embedding := Some (serializeEmbedding enc v)\<rparr>)
                         else r)
                   = (\<lambda>r. if row_id r = i
                           then (if has_trigger table d
                                 then r\<lparr>row_embedding := Some (serializeEmbedding enc v),
                                        row_updated_at := ts\<rparr>
                                 else r\<lparr>row_embedding := Some (serializeEmbedding enc v)\<rparr>)
                           else r)"
      by (auto simp: fire_trigger_def)
    ultimately show ?thesis
      using h
      by (simp add: storeEmbedding_def validateDimensions_def exec_update_by_id_def Let_def)
  qed
  show "fst (storeEmbedding enc dims ts table i v d) \<noteq> Inl (UnknownTable u)"
    using exec_update_by_id_never_UnknownTable
    by (simp add: storeEmbedding_def validateDimensions_def split: sum.splits if_splits)
qed

theorem storeEmbedding_any_table_witness:
  "storeEmbedding example_enc 3 1000 ''rules'' ''r1'' [Num 1, Num 2] example_db
     = (Inl (DimensionMismatch 2 3), example_db)
   \<and> storeEmbedding example_enc 2 1000 ''embeddings'' ''r1'' [Num 1, Num 2] example_db
     = (Inl (no_such_table ''embeddings''), example_db)
   \<and> storeEmbedding example_enc 2 1000 ''rules'' ''r1'' [Num 1, Num 2] example_db
     = (Inr (), set_table ''rules'' [] example_db)"
proof -
  have a: "length [Num 1, Num 2] \<noteq> (3::nat)" by simp
  have b: "length [Num 1, Num 2] = (2::nat) \<and> find_table ''embeddings'' example_db = None"
    by (simp add: example_db_def find_table_def table_key_schema)
  have c: "length [Num 1, Num 2] = (2::nat) \<and> find_table ''rules'' example_db = Some []
             \<and> list_all check_constraints []"
    by (simp add: example_db_def find_table_def table_key_schema)
  show ?thesis
    using a b c
      storeEmbedding_any_table
        [of "[Num 1, Num 2]" 3 example_enc 1000 "''rules''" "''r1''" example_db]
      storeEmbedding_any_table
        [of "[Num 1, Num 2]" 2 example_enc 1000 "''embeddings''" "''r1''" example_db]
      storeEmbedding_any_table
        [of "[Num 1, Num 2]" 2 example_enc 1000 "''rules''" "''r1''" example_db "[]"]
    by simp
qed

text \<open>
  C1 as stated fails: for the table name \<open>embeddings\<close>, which is none of the three, a
  vector of the wrong length gives \<open>DimensionMismatch\<close> and one of the right length
  gives the engine's error for a missing table; \<open>getTableType\<close> is what would have
  raised \<open>UnknownTable\<close>.
\<close>

theorem storeEmbedding_unknown_table_counterexample:
  "getTableType ''embeddings'' = Inl (UnknownTable ''embeddings'')
   \<and> fst (storeEmbedding example_enc 3 1000 ''embeddings'' ''r1'' [Num 1, Num 2] example_db)
       = Inl (DimensionMismatch 2 3)
   \<and> fst (storeEmbedding example_enc 2 1000 ''embeddings'' ''r1'' [Num 1, Num 2] example_db)
       = Inl (StorageError ''no such table: embeddings'')"
  by (simp add: getTableType_def storeEmbedding_def validateDimensions_def exec_update_by_id_def
      find_table_def table_key_schema example_db_def no_such_table_def)

text \<open>
  With a row to update: the embedding of rule \<open>r1\<close> is stored under the name \<open>RULES\<close>
  as under \<open>rules\<close>, and the trigger leaves the engine's timestamp in \<open>updated_at\<close>.
\<close>

lemma storeEmbedding_example_row:
  "find_table ''RULES''
     (snd (storeEmbedding example_enc 2 2000 ''RULES'' ''r1'' [Num 1, Num 2]
             (snd (RuleStorage_create 1000 example_rule example_db))))
     = Some [\<lparr>row_id = ''r1'', row_content = ''Always validate input'',
              row_embedding = Some [1, 0, 0, 0, 2, 0, 0, 0], row_metadata = None,
              row_created_at = 1000, row_updated_at = 2000,
              row_cols = RuleCols [''sec'', ''validate''] 1\<rparr>]"
  apply (simp only: example_create snd_conv)
  apply (simp add: storeEmbedding_def validateDimensions_def exec_update_by_id_def find_table_def
      set_table_def table_key_schema fire_trigger_def has_trigger_def schema_triggers_def
      example_db_def check_constraints_def writeFloatLE_def example_enc_def)
  done

section \<open>Semantic search\<close>

subsection \<open>The scan\<close>

lemma cosineSimilarity_defined:
  assumes "length a = length b"
  shows "\<exists>s. cosineSimilarity ar a b = Inr s"
  using assms
  by (auto simp: cosineSimilarity_def Let_def split: prod.splits)

lemma row_similarity_defined:
  assumes "row_wellformed parse dec (length q) r" and "row_embedding r \<noteq> None"
  shows "\<exists>s. row_similarity ar dec q r = Inr s"
proof -
  from assms(2) obtain buffer where b: "row_embedding r = Some buffer" by auto
  with assms(1) obtain e where e: "deserializeEmbedding dec buffer = Inr e" "length e = length q"
    by (auto simp: row_wellformed_def split: sum.splits)
  from e(2) cosineSimilarity_defined [of q e ar] obtain s where "cosineSimilarity ar q e = Inr s"
    by auto
  then show ?thesis by (simp add: row_similarity_def b e(1))
qed

lemma result_metadata_defined:
  assumes "row_wellformed parse dec dims r"
  shows "\<exists>md. result_metadata parse incl (row_metadata r) = Inr md"
  using assms
  by (auto simp: row_wellformed_def result_metadata_def split: option.splits)

lemma scan_rows_candidates:
  assumes "list_all (row_wellformed parse dec (length q)) rows"
    and "list_all (\<lambda>r. row_embedding r \<noteq> None) rows"
  shows "scan_rows ar parse dec q threshold incl ty rows results
           = Inr (results @ table_candidates ar parse dec q threshold incl ty rows)"
  using assms
proof (induction rows arbitrary: results)
  case Nil
  then show ?case by (simp add: table_candidates_def)
next
  case (Cons r rows)
  from Cons.prems have wf: "row_wellformed parse dec (length q) r"
    and emb: "row_embedding r \<noteq> None" by simp_all
  from row_similarity_defined [OF wf emb] obtain s where s: "row_similarity ar dec q r = Inr s"
    by auto
  from result_metadata_defined [OF wf] obtain md
    where md: "result_metadata parse incl (row_metadata r) = Inr md" by auto
  have rest: "\<And>acc. scan_rows ar parse dec q threshold incl ty rows acc
                 = Inr (acc @ table_candidates ar parse dec q threshold incl ty rows)"
    using Cons.IH Cons.prems by simp
  show ?case
    using emb
    by (simp add: s md rest table_candidates_def reaches_threshold_def candidate_of_def)
qed

lemma select_embedded_candidates:
  "table_candidates ar parse dec q threshold incl ty (filter (\<lambda>r. row_embedding r \<noteq> None) rows)
     = table_candidates ar parse dec q threshold incl ty rows"
  by (simp add: table_candidates_def conj_commute cong: conj_cong)

lemma scan_one_table:
  assumes "find_table t d = Some rows"
    and "list_all (row_wellformed parse dec (length q)) rows"
  shows "scan_tables ar parse dec q threshold incl ((t, ty) # ts) d results
           = scan_tables ar parse dec q threshold incl ts d
               (results @ table_candidates ar parse dec q threshold incl ty rows)"
proof -
  let ?sel = "filter (\<lambda>r. row_embedding r \<noteq> None) rows"
  have w: "list_all (row_wellformed parse dec (length q)) ?sel"
    using assms(2) by (simp add: list_all_iff)
  have e: "list_all (\<lambda>r. row_embedding r \<noteq> None) ?sel"
    by (simp add: list_all_iff)
  have "scan_rows ar parse dec q threshold incl ty ?sel results
          = Inr (results @ table_candidates ar parse dec q threshold incl ty ?sel)"
    using w e by (rule scan_rows_candidates)
  then have "scan_rows ar parse dec q threshold incl ty ?sel results
          = Inr (results @ table_candidates ar parse dec q threshold incl ty rows)"
    by (simp only: select_embedded_candidates)
  moreover have "exec_select_embedded t d = Inr ?sel"
    by (simp add: exec_select_embedded_def assms(1))
  ultimately show ?thesis
    by (simp del: not_None_eq)
qed

lemma scan_three_tables:
  assumes "find_table ''rules'' d = Some rs1"
    and "find_table ''project_docs'' d = Some rs2"
    and "find_table ''refs'' d = Some rs3"
    and "list_all (row_wellformed parse dec (length q)) (rs1 @ rs2 @ rs3)"
  shows "scan_tables ar parse dec q threshold incl search_tables d []
           = Inr (table_candidates ar parse dec q threshold incl TypeRule rs1
                  @ table_candidates ar parse dec q threshold incl TypeProjectDoc rs2
                  @ table_candidates ar parse dec q threshold incl TypeRef rs3)"
proof -
  from assms(4) have w1: "list_all (row_wellformed parse dec (length q)) rs1"
    and w2: "list_all (row_wellformed parse dec (length q)) rs2"
    and w3: "list_all (row_wellformed parse dec (length q)) rs3" by simp_all
  show ?thesis
    unfolding search_tables_def
    by (simp only: scan_one_table [OF assms(1) w1] scan_one_table [OF assms(2) w2]
          scan_one_table [OF assms(3) w3] scan_tables.simps(1) append_Nil append_assoc)
qed

lemma candidates_not_NaN:
  "list_all (\<lambda>c. similarity_score c \<noteq> NaN)
     (table_candidates ar parse dec q threshold incl ty rows)"
  by (auto simp: table_candidates_def list_all_iff candidate_of_def reaches_threshold_def
      split: sum.splits)

subsection \<open>The sort\<close>

lemma js_gt_sub:
  assumes "a \<noteq> NaN" and "b \<noteq> NaN"
  shows "js_gt (js_sub b a) (Num 0) = js_gt b a"
  using assms by (cases a; cases b) (simp_all add: js_sub_def)

lemma js_gt_imp_ge: "js_gt a b \<Longrightarrow> js_ge a b"
  by (cases a; cases b) simp_all

lemma js_gt_irrefl: "\<not> js_gt a a"
  by (cases a) simp_all

lemma js_ge_total: "a \<noteq> NaN \<Longrightarrow> b \<noteq> NaN \<Longrightarrow> \<not> js_gt b a \<Longrightarrow> js_ge a b"
  by (cases a; cases b) simp_all

lemma js_ge_trans: "js_ge a b \<Longrightarrow> js_ge b c \<Longrightarrow> js_ge a c"
  by (cases a; cases b; cases c) simp_all

lemma set_js_insort: "set (js_insort cmp x ys) = insert x (set ys)"
  by (induction ys) auto

lemma mset_js_insort: "mset (js_insort cmp x ys) = add_mset x (mset ys)"
  by (induction ys) auto

lemma mset_js_sort: "mset (js_sort cmp xs) = mset xs"
  by (induction xs) (simp_all add: mset_js_insort)

lemma set_js_sort: "set (js_sort cmp xs) = set xs"
  by (induction xs) (simp_all add: set_js_insort)

lemma sorted_js_insort:
  assumes "sorted_wrt (\<lambda>a b. js_ge (similarity_score a) (similarity_score b)) ys"
    and "similarity_score x \<noteq> NaN"
    and "\<forall>y \<in> set ys. similarity_score y \<noteq> NaN"
  shows "sorted_wrt (\<lambda>a b. js_ge (similarity_score a) (similarity_score b))
           (js_insort by_similarity_desc x ys)"
  using assms
proof (induction ys)
  case Nil
  then show ?case by simp
next
  case (Cons y ys)
  have cmp: "js_gt (by_similarity_desc x y) (Num 0)
               = js_gt (similarity_score y) (similarity_score x)"
    using Cons.prems by (simp add: by_similarity_desc_def js_gt_sub)
  show ?case
  proof (cases "js_gt (similarity_score y) (similarity_score x)")
    case True
    then have "js_ge (similarity_score y) (similarity_score x)" by (rule js_gt_imp_ge)
    with True Cons show ?thesis
      by (auto simp: cmp set_js_insort)
  next
    case False
    with Cons.prems have xy: "js_ge (similarity_score x) (similarity_score y)"
      by (simp add: js_ge_total)
    have "js_ge (similarity_score x) (similarity_score z)" if "z \<in> set ys" for z
      using Cons.prems(1) that xy js_ge_trans by auto
    with False xy Cons.prems(1) show ?thesis
      by (auto simp: cmp)
  qed
qed

lemma sorted_js_sort:
  assumes "\<forall>x \<in> set xs. similarity_score x \<noteq> NaN"
  shows "sorted_wrt (\<lambda>a b. js_ge (similarity_score a) (similarity_score b))
           (js_sort by_similarity_desc xs)"
  using assms
  by (induction xs) (simp_all add: sorted_js_insort set_js_sort)

lemma filter_js_insort:
  assumes "similarity_score x \<noteq> NaN"
    and "\<forall>y \<in> set ys. similarity_score y \<noteq> NaN"
  shows "filter (\<lambda>c. similarity_score c = s) (js_insort by_similarity_desc x ys)
           = filter (\<lambda>c. similarity_score c = s) (x # ys)"
  using assms
proof (induction ys)
  case Nil
  then show ?case by simp
next
  case (Cons y ys)
  have cmp: "js_gt (by_similarity_desc x y) (Num 0)
               = js_gt (similarity_score y) (similarity_score x)"
    using Cons.prems by (simp add: by_similarity_desc_def js_gt_sub)
  show ?case
  proof (cases "js_gt (similarity_score y) (similarity_score x)")
    case True
    then have "similarity_score y \<noteq> similarity_score x"
      using js_gt_irrefl by metis
    with True Cons show ?thesis
      by (auto simp: cmp)
  next
    case False
    then show ?thesis by (simp add: cmp)
  qed
qed

lemma filter_js_sort:
  assumes "\<forall>x \<in> set xs. similarity_score x \<noteq> NaN"
  shows "filter (\<lambda>c. similarity_score c = s) (js_sort by_similarity_desc xs)
           = filter (\<lambda>c. similarity_score c = s) xs"
  using assms
  by (induction xs) (simp_all add: filter_js_insort set_js_sort)

lemma js_slice0_nat: "js_slice0 (Num (real n)) xs = take n xs"
  by (simp add: js_slice0_def)

subsection \<open>The search\<close>

lemma js_slice0_cases:
  "js_slice0 limit xs
     = (case limit of
          Num r \<Rightarrow>
            if 0 \<le> r then take (nat \<lfloor>r\<rfloor>) xs
            else if r \<le> - 1 then take (length xs - nat \<lfloor>- r\<rfloor>) xs
            else []
        | PInf \<Rightarrow> xs
        | NInf \<Rightarrow> []
        | NaN \<Rightarrow> [])"
proof (cases limit)
  case (Num r)
  show ?thesis
  proof (cases "0 \<le> r")
    case True
    then have "0 \<le> \<lfloor>r\<rfloor>" by simp
    with True Num show ?thesis by (simp add: js_slice0_def)
  next
    case neg: False
    show ?thesis
    proof (cases "r \<le> - 1")
      case True
      then have c: "\<lceil>r\<rceil> \<le> - 1" by (simp add: ceiling_le_iff)
      have f: "\<lfloor>- r\<rfloor> = - \<lceil>r\<rceil>" by (simp add: ceiling_def)
      have "nat (int (length xs) + \<lceil>r\<rceil>) = length xs - nat (- \<lceil>r\<rceil>)"
        using c by linarith
      with c neg True Num show ?thesis
        by (simp add: js_slice0_def f)
    next
      case False
      with neg have "- 1 < r" "r < 0" by simp_all
      then have "\<lceil>r\<rceil> = 0" by (simp add: ceiling_eq_iff)
      with neg False Num show ?thesis by (simp add: js_slice0_def)
    qed
  qed
qed (simp_all add: js_slice0_def)

text \<open>
  C3, as the code has it. For a query of the configured dimension, on a database that
  holds the three tables with well-formed rows, and for every options value (an absent
  limit is 10, an absent threshold 0.7, metadata is included unless refused), there is a
  list \<open>ranked\<close> that holds exactly the candidates (the embedded rows whose similarity
  with the query reaches the threshold), is sorted by similarity descending, and keeps
  candidates of equal similarity in the order of the scan (tables in the order rules,
  project_docs, refs, rows in iteration order); the search returns \<open>ranked\<close> cut by
  \<open>slice(0, limit)\<close>: its first \<open>\<lfloor>limit\<rfloor>\<close> entries when \<open>limit \<ge> 0\<close>, all but its
  last \<open>\<lfloor>- limit\<rfloor>\<close> entries when \<open>limit \<le> -1\<close>, all of it when the limit is
  \<open>+\<infinity>\<close>, and nothing otherwise.
\<close>

theorem semanticSearch_ranked:
  assumes "length q = dims"
    and "find_table ''rules'' d = Some rs1"
    and "find_table ''project_docs'' d = Some rs2"
    and "find_table ''refs'' d = Some rs3"
    and "list_all (row_wellformed parse dec dims) (rs1 @ rs2 @ rs3)"
  shows "\<exists>ranked.
           semanticSearch ar parse dec dims q
               \<lparr>opt_limit = olimit, opt_threshold = othreshold, opt_includeMetadata = oinclude\<rparr> d
             = Inr (case (case olimit of None \<Rightarrow> Num 10 | Some l \<Rightarrow> l) of
                      Num r \<Rightarrow>
                        if 0 \<le> r then take (nat \<lfloor>r\<rfloor>) ranked
                        else if r \<le> - 1 then take (length ranked - nat \<lfloor>- r\<rfloor>) ranked
                        else []
                    | PInf \<Rightarrow> ranked
                    | NInf \<Rightarrow> []
                    | NaN \<Rightarrow> [])
           \<and> mset ranked
               = mset (search_candidates ar parse dec q
                         (case othreshold of None \<Rightarrow> Num (7 / 10) | Some t \<Rightarrow> t)
                         (case oinclude of None \<Rightarrow> True | Some b \<Rightarrow> b) rs1 rs2 rs3)
           \<and> sorted_wrt (\<lambda>a b. js_ge (similarity_score a) (similarity_score b)) ranked
           \<and> (\<forall>s. filter (\<lambda>c. similarity_score c = s) ranked
                   = filter (\<lambda>c. similarity_score c = s)
                       (search_candidates ar parse dec q
                          (case othreshold of None \<Rightarrow> Num (7 / 10) | Some t \<Rightarrow> t)
                          (case oinclude of None \<Rightarrow> True | Some b \<Rightarrow> b) rs1 rs2 rs3))"
proof -
  let ?options = "\<lparr>opt_limit = olimit, opt_threshold = othreshold, opt_includeMetadata = oinclude\<rparr>"
  let ?threshold = "case othreshold of None \<Rightarrow> Num (7 / 10) | Some t \<Rightarrow> t"
  let ?incl = "case oinclude of None \<Rightarrow> True | Some b \<Rightarrow> b"
  let ?limit = "case olimit of None \<Rightarrow> Num 10 | Some l \<Rightarrow> l"
  let ?cands = "search_candidates ar parse dec q ?threshold ?incl rs1 rs2 rs3"
  let ?ranked = "js_sort by_similarity_desc ?cands"
  have opts: "search_threshold ?options = ?threshold" "search_includeMetadata ?options = ?incl"
    "search_limit ?options = ?limit"
    by (simp_all add: search_threshold_def search_includeMetadata_def search_limit_def)
  have scan: "scan_tables ar parse dec q ?threshold ?incl search_tables d [] = Inr ?cands"
    unfolding search_candidates_def
    using assms(2-5) unfolding assms(1) [symmetric]
    by (rule scan_three_tables)
  have ok: "\<forall>c \<in> set ?cands. similarity_score c \<noteq> NaN"
    using candidates_not_NaN [of ar parse dec q ?threshold ?incl]
    by (auto simp: search_candidates_def list_all_iff)
  have "semanticSearch ar parse dec dims q ?options d = Inr (js_slice0 ?limit ?ranked)"
    using assms(1)
    by (simp add: semanticSearch_def validateDimensions_def opts scan del: js_sort.simps)
  then have "semanticSearch ar parse dec dims q ?options d
               = Inr (case ?limit of
                        Num r \<Rightarrow>
                          if 0 \<le> r then take (nat \<lfloor>r\<rfloor>) ?ranked
                          else if r \<le> - 1 then take (length ?ranked - nat \<lfloor>- r\<rfloor>) ?ranked
                          else []
                      | PInf \<Rightarrow> ?ranked
                      | NInf \<Rightarrow> []
                      | NaN \<Rightarrow> [])"
    by (simp only: js_slice0_cases)
  moreover have "mset ?ranked = mset ?cands"
    by (rule mset_js_sort)
  moreover have "sorted_wrt (\<lambda>a b. js_ge (similarity_score a) (similarity_score b)) ?ranked"
    using ok by (rule sorted_js_sort)
  moreover have "\<forall>s. filter (\<lambda>c. similarity_score c = s) ?ranked
                   = filter (\<lambda>c. similarity_score c = s) ?cands"
    using ok by (simp add: filter_js_sort)
  ultimately show ?thesis by blast
qed

lemma f32_words:
  "le_word 0 0 128 63 = 1065353216" "le_word 0 0 0 0 = 0"
  by (simp_all add: le_word_def)

lemma binary32_value_examples:
  "binary32_value 1065353216 = Num 1" "binary32_value 0 = Num 0"
  by (simp_all add: binary32_value_def)

lemma example_embeddings:
  "deserializeEmbedding binary32_value (f32_one @ f32_zero @ f32_zero @ f32_zero)
     = Inr [Num 1, Num 0, Num 0, Num 0]"
  "deserializeEmbedding binary32_value (f32_one @ f32_one @ f32_one @ f32_one)
     = Inr [Num 1, Num 1, Num 1, Num 1]"
  by (simp_all add: deserializeEmbedding_def deserialize_loop.simps readFloatLE_def
      f32_one_def f32_zero_def f32_words binary32_value_examples)

lemma example_similarities:
  "cosineSimilarity exact_arith [Num 1, Num 0, Num 0, Num 0] [Num 1, Num 0, Num 0, Num 0]
     = Inr (Num 1)"
  "cosineSimilarity exact_arith [Num 1, Num 0, Num 0, Num 0] [Num 1, Num 1, Num 1, Num 1]
     = Inr (Num (1 / 2))"
  by (simp_all add: cosineSimilarity_def cosine_step_def exact_arith_def)

lemma example_corpus_wellformed:
  "list_all (row_wellformed example_parse binary32_value 4)
     ([example_row ''r1'' (Some (f32_one @ f32_zero @ f32_zero @ f32_zero)) (RuleCols [] 1),
       example_row ''r2'' None (RuleCols [] 2)]
      @ [example_row ''d1'' (Some (f32_one @ f32_one @ f32_one @ f32_one))
           (DocCols ''p'' ''t'' None [])]
      @ [example_row ''f1'' (Some (f32_one @ f32_zero @ f32_zero @ f32_zero))
           (RefCols ''n'' None)])"
  by (simp add: row_wellformed_def example_row_def example_embeddings)

lemma example_search:
  "semanticSearch exact_arith example_parse binary32_value 4 [Num 1, Num 0, Num 0, Num 0]
     \<lparr>opt_limit = Some (Num l), opt_threshold = Some (Num (1 / 2)), opt_includeMetadata = None\<rparr>
     example_corpus
     = Inr (js_slice0 (Num l)
              [example_result ''r1'' TypeRule (Num 1), example_result ''f1'' TypeRef (Num 1),
               example_result ''d1'' TypeProjectDoc (Num (1 / 2))])"
  by (simp add: semanticSearch_def validateDimensions_def search_tables_def example_corpus_def
      search_limit_def search_threshold_def search_includeMetadata_def
      exec_select_embedded_def find_table_def table_key_schema example_row_def
      row_similarity_def example_embeddings example_similarities
      result_metadata_def by_similarity_desc_def js_sub_def example_result_def)

theorem semanticSearch_ranked_witness:
  "\<exists>ranked.
     Inr [example_result ''r1'' TypeRule (Num 1), example_result ''f1'' TypeRef (Num 1)]
       = Inr (take 2 ranked)
     \<and> mset ranked
         = mset (search_candidates exact_arith example_parse binary32_value
                   [Num 1, Num 0, Num 0, Num 0] (Num (1 / 2)) True
                   [example_row ''r1'' (Some (f32_one @ f32_zero @ f32_zero @ f32_zero))
                      (RuleCols [] 1),
                    example_row ''r2'' None (RuleCols [] 2)]
                   [example_row ''d1'' (Some (f32_one @ f32_one @ f32_one @ f32_one))
                      (DocCols ''p'' ''t'' None [])]
                   [example_row ''f1'' (Some (f32_one @ f32_zero @ f32_zero @ f32_zero))
                      (RefCols ''n'' None)])
     \<and> sorted_wrt (\<lambda>a b. js_ge (similarity_score a) (similarity_score b)) ranked"
proof -
  have l: "length [Num 1, Num 0, Num 0, Num 0] = (4::nat)" by simp
  have t1: "find_table ''rules'' example_corpus
              = Some [example_row ''r1'' (Some (f32_one @ f32_zero @ f32_zero @ f32_zero))
                        (RuleCols [] 1),
                      example_row ''r2'' None (RuleCols [] 2)]"
    by (simp add: example_corpus_def find_table_def table_key_schema)
  have t2: "find_table ''project_docs'' example_corpus
              = Some [example_row ''d1'' (Some (f32_one @ f32_one @ f32_one @ f32_one))
                        (DocCols ''p'' ''t'' None [])]"
    by (simp add: example_corpus_def find_table_def table_key_schema)
  have t3: "find_table ''refs'' example_corpus
              = Some [example_row ''f1'' (Some (f32_one @ f32_zero @ f32_zero @ f32_zero))
                        (RefCols ''n'' None)]"
    by (simp add: example_corpus_def find_table_def table_key_schema)
  have s: "semanticSearch exact_arith example_parse binary32_value 4 [Num 1, Num 0, Num 0, Num 0]
             \<lparr>opt_limit = Some (Num 2), opt_threshold = Some (Num (1 / 2)),
              opt_includeMetadata = None\<rparr> example_corpus
           = Inr [example_result ''r1'' TypeRule (Num 1), example_result ''f1'' TypeRef (Num 1)]"
    by (simp add: example_search js_slice0_def)
  from semanticSearch_ranked [OF l t1 t2 t3 example_corpus_wellformed,
      of exact_arith "Some (Num 2)" "Some (Num (1 / 2))" None]
  show ?thesis
    unfolding s by auto
qed

text \<open>
  C3 as stated fails for a negative limit. The corpus holds three embedded rows of four
  dimensions: a rule and a ref with the embedding \<open>[1, 0, 0, 0]\<close> and a project
  document with \<open>[1, 1, 1, 1]\<close>, stored as binary32. For the query \<open>[1, 0, 0, 0]\<close>
  their similarities are \<open>1\<close>, \<open>1\<close> and \<open>1 / 2\<close> (no operation rounds on these
  numbers), so with the threshold \<open>0.5\<close> all three are candidates. With the limit
  \<open>-1\<close> the search returns the first two of the ranking, the rule and the ref, and not
  its first \<open>limit\<close> entries, which would be none.
\<close>

theorem semanticSearch_negative_limit_counterexample:
  "semanticSearch exact_arith example_parse binary32_value 4 [Num 1, Num 0, Num 0, Num 0]
     \<lparr>opt_limit = Some (Num (- 1)), opt_threshold = Some (Num (1 / 2)),
      opt_includeMetadata = None\<rparr> example_corpus
     = Inr [example_result ''r1'' TypeRule (Num 1), example_result ''f1'' TypeRef (Num 1)]
   \<and> take (nat (- 1))
        [example_result ''r1'' TypeRule (Num 1), example_result ''f1'' TypeRef (Num 1),
         example_result ''d1'' TypeProjectDoc (Num (1 / 2))] = []"
  by (simp add: example_search js_slice0_cases)

section \<open>Idempotence of schema initialization\<close>

lemma exec_ddl_effect:
  assumes "exec_ddl s d = (r, d')"
  shows "snapshot d' = snapshot d"
    and "tables (data d) t \<noteq> None \<Longrightarrow> tables (data d') t \<noteq> None"
    and "migration_rows (data d')
           = (if s = CreateMigrationsTable \<and> migration_rows (data d) = None then Some []
              else migration_rows (data d))"
  using assms
  by (cases s; auto simp: set_table_def add_index_def add_trigger_def find_table_def
        split: option.splits if_splits)+

lemma exec_ddl_succeeds:
  assumes "tables_precede T (s # rest)" and "\<forall>t \<in> T. tables (data d) t \<noteq> None"
  shows "\<exists>d'. exec_ddl s d = (Inr (), d')
           \<and> (\<exists>T'. tables_precede T' rest \<and> (\<forall>t \<in> T'. tables (data d') t \<noteq> None))"
proof (cases s)
  case CreateMigrationsTable
  with assms show ?thesis
    by (auto split: option.splits intro!: exI [of _ T])
next
  case (CreateTable t)
  with assms have "tables_precede (insert (table_key t) T) rest" by simp
  moreover have "\<forall>u \<in> insert (table_key t) T. tables (data (snd (exec_ddl s d))) u \<noteq> None"
    using assms(2) CreateTable
    by (auto simp: set_table_def find_table_def split: option.splits)
  ultimately show ?thesis
    using CreateTable by (auto split: option.splits)
next
  case (CreateIndex name t)
  with assms show ?thesis
    by (auto simp: add_index_def find_table_def split: option.splits intro!: exI [of _ T])
next
  case (CreateTrigger name t)
  with assms show ?thesis
    by (auto simp: add_trigger_def find_table_def split: option.splits intro!: exI [of _ T])
qed

lemma run_statements_succeeds:
  assumes "tables_precede T ss" and "\<forall>t \<in> T. tables (data d) t \<noteq> None"
  shows "\<exists>d'. run_statements ss d = (Inr (), d') \<and> snapshot d' = snapshot d
           \<and> migration_rows (data d')
               = (if CreateMigrationsTable \<in> set ss \<and> migration_rows (data d) = None
                  then Some [] else migration_rows (data d))"
  using assms
proof (induction ss arbitrary: T d)
  case Nil
  then show ?case by simp
next
  case (Cons s ss)
  from exec_ddl_succeeds [OF Cons.prems] obtain d1 T'
    where s1: "exec_ddl s d = (Inr (), d1)"
      and p: "tables_precede T' ss" and t: "\<forall>t \<in> T'. tables (data d1) t \<noteq> None"
    by blast
  from Cons.IH [OF p t] obtain d2
    where r: "run_statements ss d1 = (Inr (), d2)" and sn: "snapshot d2 = snapshot d1"
      and m: "migration_rows (data d2)
                = (if CreateMigrationsTable \<in> set ss \<and> migration_rows (data d1) = None
                   then Some [] else migration_rows (data d1))"
    by blast
  note e = exec_ddl_effect(1,3) [OF s1]
  show ?case
    using s1 r sn m e by (auto split: if_splits)
qed

lemma INITIAL_SCHEMA_ordered: "tables_precede {} INITIAL_SCHEMA"
  by (simp add: INITIAL_SCHEMA_def CREATE_INDEXES_def CREATE_TRIGGERS_def table_key_schema)

lemma version_after_insert:
  assumes "(if rows = [] then 0 else Max (set (map fst rows))) = (0::int)"
  shows "SCHEMA_VERSION \<notin> set (map fst rows)"
    and "Max (set (map fst (rows @ [(SCHEMA_VERSION, desc)]))) = SCHEMA_VERSION"
proof -
  show "SCHEMA_VERSION \<notin> set (map fst rows)"
  proof
    assume a: "SCHEMA_VERSION \<in> set (map fst rows)"
    then have "rows \<noteq> []" by auto
    with assms have "Max (set (map fst rows)) = 0" by simp
    moreover from a have "SCHEMA_VERSION \<le> Max (set (map fst rows))" by simp
    ultimately show False by (simp add: SCHEMA_VERSION_def)
  qed
  show "Max (set (map fst (rows @ [(SCHEMA_VERSION, desc)]))) = SCHEMA_VERSION"
  proof (cases "rows = []")
    case True
    then show ?thesis by simp
  next
    case False
    with assms have "Max (set (map fst rows)) = 0" by simp
    with False show ?thesis
      by (simp add: SCHEMA_VERSION_def)
  qed
qed

lemma initializeSchema_fresh:
  assumes "snapshot d = None" and "getCurrentVersion d = 0"
  shows "\<exists>d'. initializeSchema d = (Inr (), d') \<and> snapshot d' = None
           \<and> getCurrentVersion d' = SCHEMA_VERSION"
proof -
  let ?d0 = "d\<lparr>snapshot := Some (data d)\<rparr>"
  have b: "exec_begin d = (Inr (), ?d0)"
    using assms(1) by (simp add: exec_begin_def)
  from run_statements_succeeds [OF INITIAL_SCHEMA_ordered, of ?d0] obtain d1
    where r: "run_statements INITIAL_SCHEMA ?d0 = (Inr (), d1)"
      and sn: "snapshot d1 = Some (data d)"
      and m: "migration_rows (data d1)
                = (if migration_rows (data d) = None then Some [] else migration_rows (data d))"
    by (auto simp: INITIAL_SCHEMA_def)
  obtain rows where rows: "migration_rows (data d1) = Some rows"
    and v0: "(if rows = [] then 0 else Max (set (map fst rows))) = (0::int)"
    using m assms(2) by (auto simp: getCurrentVersion_def split: option.splits if_splits)
  note v = version_after_insert(1) [OF v0]
    version_after_insert(2) [OF v0, of "''Initial schema''"]
  let ?d2 = "d1\<lparr>data := (data d1)\<lparr>migration_rows := Some (rows @ [(SCHEMA_VERSION, ''Initial schema'')])\<rparr>\<rparr>"
  have i: "exec_insert_migration SCHEMA_VERSION ''Initial schema'' d1 = (Inr (), ?d2)"
    using rows v(1) by (simp add: exec_insert_migration_def)
  have c: "exec_commit ?d2 = (Inr (), ?d2\<lparr>snapshot := None\<rparr>)"
    using sn by (simp add: exec_commit_def)
  have body: "initialize_body d = (Inr (), ?d2\<lparr>snapshot := None\<rparr>)"
    by (simp add: initialize_body_def b r i c)
  have "getCurrentVersion (?d2\<lparr>snapshot := None\<rparr>) = SCHEMA_VERSION"
    using v(2) by (simp add: getCurrentVersion_def)
  then show ?thesis
    using assms(2) body by (simp add: initializeSchema_def)
qed

text \<open>
  C5. On a connection with no open transaction, \<open>initializeSchema\<close> succeeds; a second
  call straight after changes nothing (the version is then not 0), so the database is as
  after one call; and when the database was new or had been initialized by this code
  (version 0 or \<open>SCHEMA_VERSION\<close>), the current version afterwards is \<open>SCHEMA_VERSION\<close>.
\<close>

theorem initializeSchema_twice:
  assumes "snapshot d = None"
  shows "fst (initializeSchema d) = Inr ()
         \<and> initializeSchema (snd (initializeSchema d)) = (Inr (), snd (initializeSchema d))
         \<and> (getCurrentVersion d = 0 \<or> getCurrentVersion d = SCHEMA_VERSION
              \<longrightarrow> getCurrentVersion (snd (initializeSchema (snd (initializeSchema d))))
                    = SCHEMA_VERSION)"
proof (cases "getCurrentVersion d = 0")
  case True
  from initializeSchema_fresh [OF assms True] obtain d'
    where 1: "initializeSchema d = (Inr (), d')" and 2: "getCurrentVersion d' = SCHEMA_VERSION"
    by blast
  from 2 have "initializeSchema d' = (Inr (), d')"
    by (simp add: initializeSchema_def SCHEMA_VERSION_def)
  with 1 2 show ?thesis by simp
next
  case False
  then have "initializeSchema d = (Inr (), d)"
    by (simp add: initializeSchema_def)
  with False show ?thesis by simp
qed

lemma initializeSchema_fresh_db:
  "getCurrentVersion fresh_db = 0
   \<and> getCurrentVersion (snd (initializeSchema fresh_db)) = 1
   \<and> migration_rows (data (snd (initializeSchema fresh_db))) = Some [(1, ''Initial schema'')]
   \<and> dom (tables (data (snd (initializeSchema fresh_db)))) = {''rules'', ''project_docs'', ''refs''}
   \<and> triggers (data (snd (initializeSchema fresh_db))) = schema_triggers"
  by (auto simp: fresh_db_def getCurrentVersion_def initializeSchema_def initialize_body_def
      exec_begin_def exec_commit_def exec_insert_migration_def INITIAL_SCHEMA_def
      CREATE_INDEXES_def CREATE_TRIGGERS_def set_table_def add_index_def add_trigger_def
      find_table_def table_key_schema schema_triggers_def SCHEMA_VERSION_def split: if_splits)

theorem initializeSchema_twice_witness:
  "snapshot fresh_db = None
   \<and> getCurrentVersion fresh_db = 0
   \<and> fst (initializeSchema fresh_db) = Inr ()
   \<and> initializeSchema (snd (initializeSchema fresh_db)) = (Inr (), snd (initializeSchema fresh_db))
   \<and> getCurrentVersion (snd (initializeSchema (snd (initializeSchema fresh_db)))) = SCHEMA_VERSION"
proof -
  have s: "snapshot fresh_db = None" by (simp add: fresh_db_def)
  have v: "getCurrentVersion fresh_db = 0" by (simp add: fresh_db_def getCurrentVersion_def)
  show ?thesis
    using initializeSchema_twice [OF s] s v by blast
qed

section \<open>The pool: limit and queue\<close>

text \<open>
  C4 fails on the code. Both tests of the limit (in \<open>getConnection\<close> and in
  \<open>createConnection\<close>) come before \<open>await connection.connect()\<close> and the push comes
  after it: calls 12 and 13 both see two connections under a limit of three, and both
  push. The pool then holds four connections, all of them active, and call 14 waits in
  the queue while the number of active connections is not the limit.
\<close>

theorem pool_limit_exceeded:
  "getStats (run_pool burst_events (new_pool 3))
     = \<lparr>stats_activeConnections = 4, stats_idleConnections = 0, stats_totalConnections = 4,
        stats_maxConnections = 3, stats_waitingRequests = 1\<rparr>
   \<and> \<not> pool_invariant (getStats (run_pool burst_events (new_pool 3)))"
  by (simp add: burst_events_def run_pool_def new_pool_def getStats_def pool_invariant_def
      unused_def createConnection_start_def connected_def createConnection_finish_def settle_def
      getConnection_start_def healthChecked_def enqueue_waiter_def)

lemma releaseConnection_serves_head:
  assumes "c \<in> set (activeConnections s)" and "waitingQueue s = w # rest"
  shows "waitingQueue (releaseConnection c s) = rest"
    and "outcomes (releaseConnection c s) w = Some (Inr c)"
    and "w' \<noteq> w \<Longrightarrow> outcomes (releaseConnection c s) w' = outcomes s w'"
    and "w' \<noteq> w \<Longrightarrow> suspended (releaseConnection c s) w' = suspended s w'"
    and "c \<in> set (activeConnections (releaseConnection c s))"
    and "availableConnections (releaseConnection c s) = availableConnections s"
  using assms by (simp_all add: releaseConnection_def settle_def)

lemma getConnection_waits:
  assumes "\<not> isShuttingDown s" and "availableConnections s = []"
    and "maxConnections s \<le> length (connections s)" and "unused g s"
  shows "pool_step (CallGetConnection g) s = enqueue_waiter g s"
  using assms by (simp add: getConnection_start_def)

text \<open>
  C6. With every connection checked out, \<open>W1\<close> and then \<open>W2\<close> call
  \<open>getConnection\<close> and wait; when a connection is then released it is handed to
  \<open>W1\<close>, \<open>W2\<close> is still waiting at the head of the queue, and the connection is still
  in the active set and not in the available list.
\<close>

theorem waiters_served_in_order:
  assumes "\<not> isShuttingDown s" and "availableConnections s = []"
    and "maxConnections s \<le> length (connections s)" and "waitingQueue s = []"
    and "c \<in> set (activeConnections s)"
    and "unused w1 s" and "unused w2 s" and "w1 \<noteq> w2"
  shows "outcomes (run_pool [CallGetConnection w1, CallGetConnection w2,
                             CallReleaseConnection c] s) w1 = Some (Inr c)
         \<and> outcomes (run_pool [CallGetConnection w1, CallGetConnection w2,
                               CallReleaseConnection c] s) w2 = None
         \<and> suspended (run_pool [CallGetConnection w1, CallGetConnection w2,
                                CallReleaseConnection c] s) w2 = Some InQueue
         \<and> waitingQueue (run_pool [CallGetConnection w1, CallGetConnection w2,
                                   CallReleaseConnection c] s) = [w2]
         \<and> c \<in> set (activeConnections (run_pool [CallGetConnection w1, CallGetConnection w2,
                                                 CallReleaseConnection c] s))
         \<and> c \<notin> set (availableConnections (run_pool [CallGetConnection w1, CallGetConnection w2,
                                                    CallReleaseConnection c] s))"
proof -
  let ?s1 = "enqueue_waiter w1 s"
  let ?s2 = "enqueue_waiter w2 ?s1"
  have 1: "pool_step (CallGetConnection w1) s = ?s1"
    using assms by (intro getConnection_waits)
  have u2: "unused w2 ?s1"
    using assms(7,8) by (simp add: unused_def enqueue_waiter_def)
  have 2: "pool_step (CallGetConnection w2) ?s1 = ?s2"
    using assms(1-3) u2 by (intro getConnection_waits) (simp_all add: enqueue_waiter_def)
  have q: "waitingQueue ?s2 = w1 # [w2]"
    using assms(4) by (simp add: enqueue_waiter_def)
  have a: "c \<in> set (activeConnections ?s2)"
    using assms(5) by (simp add: enqueue_waiter_def)
  have run: "run_pool [CallGetConnection w1, CallGetConnection w2, CallReleaseConnection c] s
               = releaseConnection c ?s2"
    by (simp add: run_pool_def 1 2 del: pool_step.simps(2))
  note r = releaseConnection_serves_head [OF a q]
  have o2: "outcomes ?s2 w2 = None" and s2: "suspended ?s2 w2 = Some InQueue"
    using assms(7) by (simp_all add: unused_def enqueue_waiter_def)
  have av: "availableConnections ?s2 = []"
    using assms(2) by (simp add: enqueue_waiter_def)
  show ?thesis
    unfolding run
    using r(1,2,5) r(3) [of w2] r(4) [of w2] r(6) assms(8) o2 s2 av by simp
qed

lemma saturated_pool_state:
  "saturated_pool =
     (new_pool 1)\<lparr>connections := [0], activeConnections := [0], outcomes := [0 \<mapsto> Inr 0],
                   next_connection := 1\<rparr>"
  by (simp add: saturated_pool_def run_pool_def new_pool_def unused_def getConnection_start_def
      createConnection_start_def connected_def createConnection_finish_def settle_def)

theorem waiters_served_in_order_witness:
  "\<not> isShuttingDown saturated_pool \<and> availableConnections saturated_pool = []
   \<and> maxConnections saturated_pool \<le> length (connections saturated_pool)
   \<and> waitingQueue saturated_pool = [] \<and> 0 \<in> set (activeConnections saturated_pool)
   \<and> unused 1 saturated_pool \<and> unused 2 saturated_pool
   \<and> outcomes (run_pool [CallGetConnection 1, CallGetConnection 2, CallReleaseConnection 0]
                 saturated_pool) 1 = Some (Inr 0)
   \<and> waitingQueue (run_pool [CallGetConnection 1, CallGetConnection 2, CallReleaseConnection 0]
                     saturated_pool) = [2]"
proof -
  have h: "\<not> isShuttingDown saturated_pool" "availableConnections saturated_pool = []"
    "maxConnections saturated_pool \<le> length (connections saturated_pool)"
    "waitingQueue saturated_pool = []" "0 \<in> set (activeConnections saturated_pool)"
    "unused 1 saturated_pool" "unused 2 saturated_pool" "(1::nat) \<noteq> 2"
    by (simp_all add: saturated_pool_state new_pool_def unused_def)
  show ?thesis
    using waiters_served_in_order [OF h] h by simp
qed

section \<open>Hit accounting of the cache\<close>

lemma warmUp_counters:
  "hits (warmUp now entries m) = hits m \<and> misses (warmUp now entries m) = misses m"
  unfolding warmUp_def
  by (induction entries arbitrary: m) (simp_all add: cache_set_def)

lemma cache_apply_requests:
  "hits (cache_apply ev m) + misses (cache_apply ev m)
     = count_request ev (hits m + misses m)"
proof (cases ev)
  case (Pair now op)
  show ?thesis
    unfolding Pair
    by (cases op)
       (auto simp: cache_get_def cache_getWithMetadata_def cache_set_def cache_delete_def
          cache_clear_def cache_prune_def resetStats_def cache_load_def warmUp_counters Let_def
          split: prod.splits option.splits)
qed

lemma run_cache_requests:
  "hits (run_cache ops m) + misses (run_cache ops m)
     = fold count_request ops (hits m + misses m)"
  unfolding run_cache_def
  by (induction ops arbitrary: m) (simp_all add: cache_apply_requests)

lemma no_request_counts_nothing:
  assumes "list_all (\<lambda>ev. \<not> is_request (snd ev)) ops"
  shows "fold count_request ops 0 = 0"
  using assms
proof (induction ops)
  case Nil
  then show ?case by simp
next
  case (Cons ev ops)
  obtain now op where ev: "ev = (now, op)" by (cases ev)
  from Cons.prems have "\<not> is_request op" by (simp add: ev)
  then have "count_request ev 0 = 0" by (cases op) (simp_all add: ev)
  with Cons show ?case by simp
qed

text \<open>
  C9. After any sequence of cache operations on a new cache, \<open>getStats\<close> reports the
  counters of hits and misses, whose sum is the number of \<open>get\<close> and \<open>getWithMetadata\<close>
  calls since the last \<open>resetStats\<close>; \<open>hitRate\<close> is their quotient
  \<open>totalHits / (totalHits + totalMisses)\<close>, and it is 0 when the sum is 0, in particular
  when no \<open>get\<close> or \<open>getWithMetadata\<close> was called.
\<close>

theorem hitRate_is_hits_over_requests:
  "hitRate (cache_getStats (run_cache ops (new_cache mx ttl upd)))
     = (if totalHits (cache_getStats (run_cache ops (new_cache mx ttl upd)))
           + totalMisses (cache_getStats (run_cache ops (new_cache mx ttl upd))) = 0
        then 0
        else real (totalHits (cache_getStats (run_cache ops (new_cache mx ttl upd))))
             / real (totalHits (cache_getStats (run_cache ops (new_cache mx ttl upd)))
                     + totalMisses (cache_getStats (run_cache ops (new_cache mx ttl upd)))))
   \<and> totalHits (cache_getStats (run_cache ops (new_cache mx ttl upd)))
       + totalMisses (cache_getStats (run_cache ops (new_cache mx ttl upd)))
       = fold count_request ops 0
   \<and> (list_all (\<lambda>ev. \<not> is_request (snd ev)) ops
        \<longrightarrow> hitRate (cache_getStats (run_cache ops (new_cache mx ttl upd))) = 0)"
proof -
  let ?m = "run_cache ops (new_cache mx ttl upd :: 'a MemoryCache)"
  have n: "hits ?m + misses ?m = fold count_request ops 0"
    using run_cache_requests [of ops "new_cache mx ttl upd"] by (simp add: new_cache_def)
  have r: "hitRate (cache_getStats ?m)
             = (if hits ?m + misses ?m = 0 then 0
                else real (hits ?m) / real (hits ?m + misses ?m))"
    by (simp add: cache_getStats_def Let_def)
  have z: "hitRate (cache_getStats ?m) = 0"
    if "list_all (\<lambda>ev. \<not> is_request (snd ev)) ops"
    using no_request_counts_nothing [OF that] n r by simp
  show ?thesis
    using n r z by (simp add: cache_getStats_def Let_def)
qed

theorem hitRate_is_hits_over_requests_witness:
  "list_all (\<lambda>ev. \<not> is_request (snd ev)) [(1::nat, OpSet ''a'' (1::nat)), (2, OpRead), (3, OpDelete ''a'')]
   \<and> hitRate (cache_getStats (run_cache [(1::nat, OpSet ''a'' (1::nat)), (2, OpRead), (3, OpDelete ''a'')]
                 (new_cache 3 100 True))) = 0"
proof -
  have h: "list_all (\<lambda>ev. \<not> is_request (snd ev))
             [(1::nat, OpSet ''a'' (1::nat)), (2, OpRead), (3, OpDelete ''a'')]"
    by simp
  show ?thesis
    using hitRate_is_hits_over_requests
      [of "[(1::nat, OpSet ''a'' (1::nat)), (2, OpRead), (3, OpDelete ''a'')]" 3 100 True] h
    by blast
qed

lemma hitRate_example:
  "cache_getStats (run_cache [(1, OpSet ''a'' (7::nat)), (2, OpGet ''a''), (3, OpGet ''b''),
                              (200, OpGet ''a'')] (new_cache 3 100 True))
     = \<lparr>size = 0, maxSize = 3, hitRate = 1 / 3, totalHits = 1, totalMisses = 2, totalSets = 1,
        totalDeletes = 0\<rparr>"
  by (simp add: run_cache_def new_cache_def cache_getStats_def cache_set_def cache_get_def
      lru_set_def lru_get_def lru_stale_def lru_bump_def lru_remove_def)


section \<open>Cached search results and row mutations\<close>

subsection \<open>Cache writes under other keys\<close>

lemma map_of_filter_other:
  assumes "k \<noteq> k'"
  shows "map_of (filter (\<lambda>item. fst item \<noteq> k') xs) k = map_of xs k"
  using assms by (induction xs) auto

lemma map_of_butlast:
  "map_of (butlast xs) k = (if k \<in> set (map fst (butlast xs)) then map_of xs k else None)"
proof (induction xs)
  case Nil
  then show ?case by simp
next
  case (Cons x xs)
  show ?case
  proof (cases "xs = []")
    case True
    then show ?thesis by simp
  next
    case False
    with Cons show ?thesis
      by (auto simp: map_of_eq_None_iff image_iff)
  qed
qed

lemma cache_set_entry:
  assumes "k \<noteq> k'"
  shows "cache_entry (cache_set now k' v m) k
           = (if evicts k' m k then None else cache_entry m k)"
proof -
  consider (present) "k' \<in> set (map fst (lru_items (cache m)))"
    | (full) "k' \<notin> set (map fst (lru_items (cache m)))"
        "lru_max (cache m) \<noteq> 0 \<and> lru_max (cache m) \<le> length (lru_items (cache m))"
    | (room) "k' \<notin> set (map fst (lru_items (cache m)))"
        "\<not> (lru_max (cache m) \<noteq> 0 \<and> lru_max (cache m) \<le> length (lru_items (cache m)))"
    by blast
  then show ?thesis
  proof cases
    case present
    with assms show ?thesis
      by (simp add: cache_set_def lru_set_def cache_entry_def evicts_def map_of_filter_other)
  next
    case full
    have "map_of (lru_items (cache m)) k = None" if "k \<notin> set (map fst (lru_items (cache m)))"
      using that by (simp add: map_of_eq_None_iff)
    moreover have "k \<in> set (map fst (lru_items (cache m)))"
      if "k \<in> set (map fst (butlast (lru_items (cache m))))"
      using that in_set_butlastD by (fastforce simp: image_iff)
    ultimately show ?thesis
      using full assms map_of_butlast [of "lru_items (cache m)" k]
      by (auto simp: cache_set_def lru_set_def cache_entry_def evicts_def)
  next
    case room
    with assms show ?thesis
      by (auto simp: cache_set_def lru_set_def cache_entry_def evicts_def)
  qed
qed

lemma cache_delete_entry:
  assumes "k \<noteq> k'"
  shows "cache_entry (snd (cache_delete k' m)) k = cache_entry m k"
  using assms
  by (simp add: cache_delete_def lru_delete_def lru_remove_def cache_entry_def
      map_of_filter_other)

lemma cache_deletes_entry:
  assumes "\<forall>doc \<in> set documents. k \<noteq> batch_key doc"
  shows "cache_entry (fold (\<lambda>doc m. snd (cache_delete (batch_key doc) m)) documents m) k
           = cache_entry m k"
  using assms
  by (induction documents arbitrary: m) (simp_all add: cache_delete_entry)

lemma cache_set_ttl: "lru_ttl (cache (cache_set now k v m)) = lru_ttl (cache m)"
  by (simp add: cache_set_def lru_set_def)

lemma cache_delete_ttl: "lru_ttl (cache (snd (cache_delete k m))) = lru_ttl (cache m)"
  by (simp add: cache_delete_def lru_delete_def lru_remove_def)

lemma cache_deletes_ttl:
  "lru_ttl (cache (fold (\<lambda>doc m. snd (cache_delete (batch_key doc) m)) documents m))
     = lru_ttl (cache m)"
  by (induction documents arbitrary: m) (simp_all add: cache_delete_ttl)

lemma cache_get_same_entry:
  assumes "cache_entry m' k = cache_entry m k" and "lru_ttl (cache m') = lru_ttl (cache m)"
  shows "fst (cache_get t k m') = fst (cache_get t k m)"
  using assms
  by (auto simp: cache_get_def lru_get_def cache_entry_def lru_stale_def
      split: option.splits prod.splits)

subsection \<open>The keys the service writes\<close>

lemma search_key_head:
  assumes "take 7 k = ''search:''"
  shows "\<exists>rest. k = CHR ''s'' # rest"
  using assms by (cases k) auto

lemma search_key_not_row_key:
  assumes "take 7 k = ''search:''"
  shows "k \<noteq> ''rule:'' @ i" and "k \<noteq> ''project_doc:'' @ i" and "k \<noteq> ''ref:'' @ i"
    and "k \<noteq> ''ref:name:'' @ i"
  using search_key_head [OF assms] by auto

lemma lower_char_s: "lower_char (CHR ''s'') = CHR ''s''"
  by (simp add: lower_char_def)

lemma key_of_folded_name:
  assumes "table_key t = c # c' # cs" and "c \<noteq> CHR ''s''"
  shows "CHR ''s'' # rest \<noteq> butlast t @ x"
proof -
  from assms(1) obtain a b t' where t: "t = a # b # t'" and a: "lower_char a = c"
    by (auto simp: table_key_def map_eq_Cons_conv)
  from a assms(2) lower_char_s have "a \<noteq> CHR ''s''" by auto
  then show ?thesis by (simp add: t)
qed

lemma search_key_not_batch_key:
  assumes "take 7 k = ''search:''"
    and "table_key (doc_table doc) \<in> {''rules'', ''project_docs'', ''refs''}"
  shows "k \<noteq> batch_key doc"
proof -
  from search_key_head [OF assms(1)] obtain rest where k: "k = CHR ''s'' # rest" by blast
  from assms(2) consider "table_key (doc_table doc) = ''rules''"
    | "table_key (doc_table doc) = ''project_docs''" | "table_key (doc_table doc) = ''refs''"
    by blast
  then show ?thesis
  proof cases
    case 1
    then show ?thesis
      unfolding k batch_key_def by (intro key_of_folded_name [of _ "CHR ''r''"]) simp_all
  next
    case 2
    then show ?thesis
      unfolding k batch_key_def by (intro key_of_folded_name [of _ "CHR ''p''"]) simp_all
  next
    case 3
    then show ?thesis
      unfolding k batch_key_def by (intro key_of_folded_name [of _ "CHR ''r''"]) simp_all
  qed
qed

lemma cache_set_search_entry:
  fixes m :: "cached MemoryCache"
  assumes "take 7 k = ''search:''"
  shows "cache_entry (cache_set now (''rule:'' @ i) v m) k
           = (if evicts (''rule:'' @ i) m k then None else cache_entry m k)"
    and "cache_entry (cache_set now (''project_doc:'' @ i) v m) k
           = (if evicts (''project_doc:'' @ i) m k then None else cache_entry m k)"
    and "cache_entry (cache_set now (''ref:'' @ i) v m) k
           = (if evicts (''ref:'' @ i) m k then None else cache_entry m k)"
    and "cache_entry (cache_set now (''ref:name:'' @ i) v m) k
           = (if evicts (''ref:name:'' @ i) m k then None else cache_entry m k)"
  using search_key_not_row_key [OF assms] by (simp_all add: cache_set_entry)

lemma cache_delete_search_entry:
  fixes m :: "cached MemoryCache"
  assumes "take 7 k = ''search:''"
  shows "cache_entry (snd (cache_delete (''rule:'' @ i) m)) k = cache_entry m k"
  using search_key_not_row_key(1) [OF assms] by (simp add: cache_delete_entry)

subsection \<open>A batch that was stored names tables of the database\<close>

lemma exec_update_by_id_tables:
  assumes "exec_update_by_id ts t i f d = (Inr u, d')"
  shows "table_key t \<in> dom (tables (data d))
         \<and> dom (tables (data d')) = dom (tables (data d))"
  using assms
  by (auto simp: exec_update_by_id_def set_table_def find_table_def
      split: option.splits if_splits)

lemma storeEmbedding_tables:
  assumes "storeEmbedding enc dims ts t i e d = (Inr u, d')"
  shows "table_key t \<in> dom (tables (data d))
         \<and> dom (tables (data d')) = dom (tables (data d))"
  using assms exec_update_by_id_tables
  by (auto simp: storeEmbedding_def Let_def split: sum.splits)

lemma storeEmbeddings_tables:
  assumes "storeEmbeddings enc dims ts documents d = (Inr u, d')"
  shows "\<forall>doc \<in> set documents. table_key (doc_table doc) \<in> dom (tables (data d))"
  using assms
proof (induction documents arbitrary: d)
  case Nil
  then show ?case by simp
next
  case (Cons doc documents)
  from Cons.prems obtain d1
    where 1: "storeEmbedding enc dims ts (doc_table doc) (doc_id doc) (doc_embedding doc) d
                = (Inr (), d1)"
      and 2: "storeEmbeddings enc dims ts documents d1 = (Inr u, d')"
    by (auto split: prod.splits sum.splits)
  from storeEmbedding_tables [OF 1] Cons.IH [OF 2] show ?case by auto
qed

lemma batchStoreEmbeddings_tables:
  assumes "batchStoreEmbeddings enc dims ts documents d = (Inr u, d')"
  shows "\<forall>doc \<in> set documents. table_key (doc_table doc) \<in> dom (tables (data d))"
proof -
  from assms obtain d0 d1 where b: "exec_begin d = (Inr (), d0)"
    and s: "storeEmbeddings enc dims ts documents d0 = (Inr (), d1)"
    by (auto simp: batchStoreEmbeddings_def split: prod.splits sum.splits)
  from b have "data d0 = data d"
    by (auto simp: exec_begin_def split: option.splits)
  with storeEmbeddings_tables [OF s] show ?thesis by simp
qed

subsection \<open>The mutations\<close>

lemma createRule_entry:
  assumes "take 7 k = ''search:''"
  shows "cache_entry (svc_cache (snd (createRule enc now ts nowc checkout rule s))) k
           = (if \<not> isl (fst (createRule enc now ts nowc checkout rule s))
                 \<and> evicts (''rule:'' @ rule_id rule) (svc_cache s) k
              then None else cache_entry (svc_cache s) k)"
  using cache_set_search_entry(1) [OF assms]
  by (auto simp: createRule_def split: option.splits prod.splits sum.splits)

lemma updateRule_entry:
  assumes "take 7 k = ''search:''"
  shows "cache_entry (svc_cache (snd (updateRule enc now ts nowc checkout i updates s))) k
           = (if (case fst (updateRule enc now ts nowc checkout i updates s) of
                    Inr (Some u) \<Rightarrow> True | _ \<Rightarrow> False)
                 \<and> evicts (''rule:'' @ i) (svc_cache s) k
              then None else cache_entry (svc_cache s) k)"
  using cache_set_search_entry(1) [OF assms]
  by (auto simp: updateRule_def split: option.splits prod.splits sum.splits)

lemma deleteRule_entry:
  assumes "take 7 k = ''search:''"
  shows "cache_entry (svc_cache (snd (deleteRule checkout i s))) k = cache_entry (svc_cache s) k"
  using cache_delete_search_entry [OF assms]
  by (auto simp: deleteRule_def split: option.splits prod.splits sum.splits)

lemma createProjectDoc_entry:
  assumes "take 7 k = ''search:''"
  shows "cache_entry (svc_cache (snd (createProjectDoc enc now ts nowc checkout doc s))) k
           = (if \<not> isl (fst (createProjectDoc enc now ts nowc checkout doc s))
                 \<and> evicts (''project_doc:'' @ pdoc_id doc) (svc_cache s) k
              then None else cache_entry (svc_cache s) k)"
  using cache_set_search_entry(2) [OF assms]
  by (auto simp: createProjectDoc_def split: option.splits prod.splits sum.splits)

lemma RefStorage_create_result:
  assumes "RefStorage_create now ref d = (Inr created, d')"
  shows "created = ref\<lparr>ref_created_at := now, ref_updated_at := now\<rparr>"
  using assms
  by (auto simp: RefStorage_create_def split: prod.splits sum.splits if_splits)

lemma createRef_entry:
  assumes "take 7 k = ''search:''"
  shows "cache_entry (svc_cache (snd (createRef enc now ts nowc checkout ref s))) k
           = (if \<not> isl (fst (createRef enc now ts nowc checkout ref s))
                 \<and> (evicts (''ref:'' @ ref_id ref) (svc_cache s) k
                     \<or> evicts (''ref:name:'' @ ref_name ref)
                          (cache_set nowc (''ref:'' @ ref_id ref)
                             (CachedRef (ref\<lparr>ref_created_at := now, ref_updated_at := now\<rparr>))
                             (svc_cache s)) k)
              then None else cache_entry (svc_cache s) k)"
proof -
  have two: "cache_entry (cache_set nowc (''ref:name:'' @ n) v' (cache_set nowc (''ref:'' @ j) v m)) k
               = (if evicts (''ref:'' @ j) m k
                     \<or> evicts (''ref:name:'' @ n) (cache_set nowc (''ref:'' @ j) v m) k
                  then None else cache_entry m k)"
    for m :: "cached MemoryCache" and n j v v'
    using cache_set_search_entry(3) [OF assms, of nowc j v m]
      cache_set_search_entry(4) [OF assms, of nowc n v' "cache_set nowc (''ref:'' @ j) v m"]
    by auto
  show ?thesis
    using two RefStorage_create_result
    by (auto simp: createRef_def split: option.splits prod.splits sum.splits)
qed

lemma batchStoreEmbeddings_entry:
  assumes "take 7 k = ''search:''"
    and "dom (tables (data (svc_db s))) \<subseteq> {''rules'', ''project_docs'', ''refs''}"
  shows "cache_entry (svc_cache (snd (service_batchStoreEmbeddings enc ts checkout documents s))) k
           = cache_entry (svc_cache s) k"
proof (cases "\<exists>d. batchStoreEmbeddings enc (svc_vectorDimensions s) ts documents (svc_db s)
                      = (Inr (), d) \<and> isInitialized s \<and> checkout = None")
  case True
  then obtain d where ok: "batchStoreEmbeddings enc (svc_vectorDimensions s) ts documents (svc_db s)
                             = (Inr (), d)" by blast
  from batchStoreEmbeddings_tables [OF ok] assms(2)
  have "\<forall>doc \<in> set documents. table_key (doc_table doc) \<in> {''rules'', ''project_docs'', ''refs''}"
    by blast
  then have "\<forall>doc \<in> set documents. k \<noteq> batch_key doc"
    using search_key_not_batch_key [OF assms(1)] by blast
  from cache_deletes_entry [OF this] True ok show ?thesis
    by (simp add: service_batchStoreEmbeddings_def)
next
  case False
  then show ?thesis
    by (auto simp: service_batchStoreEmbeddings_def split: option.splits prod.splits sum.splits)
qed

lemma after_mutation_ttl:
  "lru_ttl (cache (svc_cache (after_mutation enc now ts nowc checkout mu s)))
     = lru_ttl (cache (svc_cache s))"
  by (cases mu)
     (auto simp: createRule_def updateRule_def deleteRule_def createProjectDoc_def createRef_def
        service_batchStoreEmbeddings_def cache_set_ttl cache_delete_ttl cache_deletes_ttl
        split: option.splits prod.splits sum.splits)

text \<open>
  C10. Let \<open>k\<close> be a cache key that begins with \<open>search:\<close>. \<open>deleteRule\<close> leaves the
  item under \<open>k\<close> as it is, whatever the occupancy of the cache, and so does
  \<open>batchStoreEmbeddings\<close> on a database that holds no row table besides the three of the
  schema. \<open>createRule\<close>, \<open>updateRule\<close>, \<open>createProjectDoc\<close> and \<open>createRef\<close> leave
  the item as it is too, with one exception: when the mutation succeeds and stores its
  record under a key the cache does not hold while the cache is full, and the item under
  \<open>k\<close> is the least recently used one, \<open>lru-cache\<close> evicts it. No mutation writes
  under \<open>k\<close>. An item left as it is answers a later \<open>get\<close>, and so a later
  \<open>semanticSearch\<close> with that key, as before the mutation: with the cached result,
  until it is stale.
\<close>

theorem mutations_keep_search_entries:
  assumes "take 7 k = ''search:''"
  shows "cache_entry (svc_cache (snd (createRule enc now ts nowc checkout rule s))) k
           = (if \<not> isl (fst (createRule enc now ts nowc checkout rule s))
                 \<and> evicts (''rule:'' @ rule_id rule) (svc_cache s) k
              then None else cache_entry (svc_cache s) k)
         \<and> cache_entry (svc_cache (snd (updateRule enc now ts nowc checkout i updates s))) k
           = (if (case fst (updateRule enc now ts nowc checkout i updates s) of
                    Inr (Some u) \<Rightarrow> True | _ \<Rightarrow> False)
                 \<and> evicts (''rule:'' @ i) (svc_cache s) k
              then None else cache_entry (svc_cache s) k)
         \<and> cache_entry (svc_cache (snd (deleteRule checkout i s))) k = cache_entry (svc_cache s) k
         \<and> cache_entry (svc_cache (snd (createProjectDoc enc now ts nowc checkout doc s))) k
           = (if \<not> isl (fst (createProjectDoc enc now ts nowc checkout doc s))
                 \<and> evicts (''project_doc:'' @ pdoc_id doc) (svc_cache s) k
              then None else cache_entry (svc_cache s) k)
         \<and> cache_entry (svc_cache (snd (createRef enc now ts nowc checkout ref s))) k
           = (if \<not> isl (fst (createRef enc now ts nowc checkout ref s))
                 \<and> (evicts (''ref:'' @ ref_id ref) (svc_cache s) k
                     \<or> evicts (''ref:name:'' @ ref_name ref)
                          (cache_set nowc (''ref:'' @ ref_id ref)
                             (CachedRef (ref\<lparr>ref_created_at := now, ref_updated_at := now\<rparr>))
                             (svc_cache s)) k)
              then None else cache_entry (svc_cache s) k)
         \<and> (dom (tables (data (svc_db s))) \<subseteq> {''rules'', ''project_docs'', ''refs''}
            \<longrightarrow> cache_entry
                  (svc_cache (snd (service_batchStoreEmbeddings enc ts checkout documents s))) k
                  = cache_entry (svc_cache s) k)
         \<and> (cache_entry (svc_cache (after_mutation enc now ts nowc checkout mu s)) k
               = cache_entry (svc_cache s) k
            \<longrightarrow> fst (cache_get t k (svc_cache (after_mutation enc now ts nowc checkout mu s)))
                  = fst (cache_get t k (svc_cache s)))"
  apply (intro conjI impI)
        apply (rule createRule_entry [OF assms])
       apply (rule updateRule_entry [OF assms])
      apply (rule deleteRule_entry [OF assms])
     apply (rule createProjectDoc_entry [OF assms])
    apply (rule createRef_entry [OF assms])
   apply (erule batchStoreEmbeddings_entry [OF assms])
  apply (erule cache_get_same_entry)
  apply (rule after_mutation_ttl)
  done


text \<open>
  Both cases occur. With room in the cache the rule is stored beside the cached search, which
  a later \<open>get\<close> still returns; in a cache of one slot storing the rule evicts it.
\<close>

lemma example_service_after_createRule:
  "map fst (lru_items (cache (svc_cache
      (snd (createRule example_enc 1000 1000 1000 None example_rule example_service)))))
     = [''rule:r1'', ''search:q'']
   \<and> fst (cache_get 1001 ''search:q'' (svc_cache
        (snd (createRule example_enc 1000 1000 1000 None example_rule example_service))))
     = Some (CachedSearch [])"
  apply (simp add: createRule_def example_service_def store_if_given_def)
  apply (simp only: example_create)
  apply (simp add: example_rule_def store_if_given_def cache_set_def lru_set_def new_cache_def
      cache_get_def lru_get_def lru_stale_def)
  done

lemma crowded_service_after_createRule:
  "evicts ''rule:r1'' (svc_cache crowded_service) ''search:q''
   \<and> cache_entry (svc_cache crowded_service) ''search:q'' \<noteq> None
   \<and> map fst (lru_items (cache (svc_cache
        (snd (createRule example_enc 1000 1000 1000 None example_rule crowded_service)))))
     = [''rule:r1'']
   \<and> cache_entry (svc_cache
        (snd (createRule example_enc 1000 1000 1000 None example_rule crowded_service)))
        ''search:q'' = None"
  apply (simp add: createRule_def crowded_service_def store_if_given_def)
  apply (simp only: example_create)
  apply (simp add: example_rule_def store_if_given_def cache_set_def lru_set_def new_cache_def
      cache_entry_def evicts_def)
  done

text \<open>
  The condition on the tables is needed for a batch: on a database with a row table
  \<open>searchs\<close>, a batch that names it is stored, and the key deleted for its document
  \<open>q\<close> is \<open>search:q\<close>.
\<close>

lemma foreign_service_after_batch:
  "batch_key \<lparr>doc_table = ''searchs'', doc_id = ''q'', doc_embedding = [Num 1, Num 0]\<rparr>
     = ''search:q''
   \<and> cache_entry (svc_cache foreign_service) ''search:q'' \<noteq> None
   \<and> fst (service_batchStoreEmbeddings example_enc 1000 None
          [\<lparr>doc_table = ''searchs'', doc_id = ''q'', doc_embedding = [Num 1, Num 0]\<rparr>]
          foreign_service) = Inr ()
   \<and> cache_entry (svc_cache (snd (service_batchStoreEmbeddings example_enc 1000 None
          [\<lparr>doc_table = ''searchs'', doc_id = ''q'', doc_embedding = [Num 1, Num 0]\<rparr>]
          foreign_service))) ''search:q'' = None"
  by (simp add: foreign_service_def example_service_def example_db_def
      service_batchStoreEmbeddings_def batchStoreEmbeddings_def storeEmbedding_def
      validateDimensions_def exec_begin_def exec_commit_def exec_update_by_id_def
      find_table_def set_table_def table_key_def lower_char_def batch_key_def
      cache_entry_def cache_set_def lru_set_def new_cache_def
      cache_delete_def lru_delete_def lru_remove_def Let_def)

theorem mutations_keep_search_entries_witness:
  "take 7 ''search:q'' = ''search:''
   \<and> dom (tables (data (svc_db example_service))) \<subseteq> {''rules'', ''project_docs'', ''refs''}
   \<and> \<not> evicts (''rule:'' @ rule_id example_rule) (svc_cache example_service) ''search:q''
   \<and> cache_entry (svc_cache
        (snd (createRule example_enc 1000 1000 1000 None example_rule example_service)))
        ''search:q''
     = cache_entry (svc_cache example_service) ''search:q''
   \<and> cache_entry (svc_cache (snd (deleteRule None ''r1'' example_service))) ''search:q''
     = cache_entry (svc_cache example_service) ''search:q''
   \<and> cache_entry (svc_cache
        (snd (service_batchStoreEmbeddings example_enc 1000 None [] example_service)))
        ''search:q''
     = cache_entry (svc_cache example_service) ''search:q''
   \<and> fst (cache_get 1001 ''search:q'' (svc_cache
        (after_mutation example_enc 1000 1000 1000 None (CreateRule example_rule)
           example_service)))
     = fst (cache_get 1001 ''search:q'' (svc_cache example_service))"
proof -
  have h1: "take 7 ''search:q'' = ''search:''" by simp
  have h2: "dom (tables (data (svc_db example_service)))
              \<subseteq> {''rules'', ''project_docs'', ''refs''}"
    by (auto simp: example_service_def example_db_def split: if_splits)
  have h3: "\<not> evicts (''rule:'' @ rule_id example_rule) (svc_cache example_service) ''search:q''"
    by (simp add: evicts_def example_service_def example_rule_def cache_set_def lru_set_def
        new_cache_def)
  from mutations_keep_search_entries
         [OF h1, where enc = example_enc and now = 1000 and ts = 1000 and nowc = 1000
            and checkout = None and rule = example_rule and s = example_service
            and i = "''r1''" and documents = "[]" and mu = "CreateRule example_rule"
            and t = 1001]
       h1 h2 h3
  show ?thesis by (simp only: after_mutation.simps simp_thms if_False)
qed

end
